theory Spec2Isabelle
  imports Main
begin

section \<open>Values, errors and the library functions the source calls\<close>

text \<open>
  The values a parsed YAML mapping holds for the keys the source reads: a string
  (\<^verbatim>\<open>time: '1600'\<close>) or an integer (\<^verbatim>\<open>duration: 45\<close>, \<^verbatim>\<open>start_date: 20150801\<close>).
\<close>

datatype yval = YStr string | YInt int

text \<open>
  The exceptions that leave \<^verbatim>\<open>meeting.py\<close>. \<open>KeyError\<close> carries the key that was
  looked up (\<^verbatim>\<open>e.args[0]\<close>), \<open>ValueError\<close> the message the source gives it;
  \<open>StrptimeError\<close> is the \<^verbatim>\<open>ValueError\<close> of \<^verbatim>\<open>datetime.strptime\<close> that the source does
  not catch (its message is the library's), and \<open>DigitLimitError\<close> the \<^verbatim>\<open>ValueError\<close> that
  the interpreter raises when an integer of more than 4300 digits is converted to a
  string.
\<close>

datatype error =
    KeyError yval
  | ValueError string
  | StrptimeError
  | DigitLimitError
  | TypeError
  | AttributeError
  | OverflowError
  | MeetingConflictError string

type_synonym sched_yaml = "string \<Rightarrow> yval option"

definition getitem :: "sched_yaml \<Rightarrow> string \<Rightarrow> error + yval" where
  "getitem d k = (case d k of None \<Rightarrow> Inl (KeyError (YStr k)) | Some v \<Rightarrow> Inr v)"

subsection \<open>\<^verbatim>\<open>datetime\<close> and \<^verbatim>\<open>timedelta\<close>\<close>

text \<open>
  A \<^verbatim>\<open>datetime\<close> is the number of microseconds since the start of the day with
  proleptic Gregorian ordinal 0 (\<^verbatim>\<open>date.toordinal()\<close>; ordinal 1 is 0001-01-01, a
  Monday). Every instant of the source is UTC. A \<^verbatim>\<open>timedelta\<close> is a number of
  microseconds. Python supports the dates 0001-01-01 .. 9999-12-31 and raises
  \<^verbatim>\<open>OverflowError\<close> when arithmetic leaves them.
\<close>

type_synonym datetime = int
type_synonym timedelta = int

definition usec_per_minute :: int where "usec_per_minute = 60000000"
definition usec_per_hour :: int where "usec_per_hour = 3600000000"
definition usec_per_day :: int where "usec_per_day = 86400000000"

definition MINORDINAL :: int where "MINORDINAL = 1"
definition MAXORDINAL :: int where "MAXORDINAL = 3652059"

definition dt_valid :: "datetime \<Rightarrow> bool" where
  "dt_valid t = (MINORDINAL * usec_per_day \<le> t \<and> t < (MAXORDINAL + 1) * usec_per_day)"

definition toordinal :: "datetime \<Rightarrow> int" where
  "toordinal t = t div usec_per_day"

definition dt_time :: "datetime \<Rightarrow> int" where
  "dt_time t = t mod usec_per_day"

definition dt_hour :: "datetime \<Rightarrow> int" where
  "dt_hour t = dt_time t div usec_per_hour"

definition dt_minute :: "datetime \<Rightarrow> int" where
  "dt_minute t = (dt_time t mod usec_per_hour) div usec_per_minute"

definition weekday :: "datetime \<Rightarrow> int" where
  "weekday t = (toordinal t + 6) mod 7"

text \<open>\<^verbatim>\<open>datetime.combine(date, time)\<close>, the date given by its ordinal.\<close>

definition combine :: "int \<Rightarrow> int \<Rightarrow> datetime" where
  "combine ordinal tod = ordinal * usec_per_day + tod"

text \<open>
  \<^verbatim>\<open>datetime(year, month, day, hour, minute)\<close> where year, month and day are those of
  the date with the given ordinal.
\<close>

definition mk_datetime :: "int \<Rightarrow> int \<Rightarrow> int \<Rightarrow> datetime" where
  "mk_datetime ordinal h m = ordinal * usec_per_day + h * usec_per_hour + m * usec_per_minute"

definition timedelta_days :: "int \<Rightarrow> timedelta" where
  "timedelta_days n = n * usec_per_day"

text \<open>\<^verbatim>\<open>timedelta(minutes=n)\<close>: at most 999999999 days in either direction.\<close>

definition timedelta_minutes :: "int \<Rightarrow> error + timedelta" where
  "timedelta_minutes n =
     (if - 999999999 \<le> (n * usec_per_minute) div usec_per_day
         \<and> (n * usec_per_minute) div usec_per_day \<le> 999999999
      then Inr (n * usec_per_minute) else Inl OverflowError)"

definition dt_add :: "datetime \<Rightarrow> timedelta \<Rightarrow> error + datetime" where
  "dt_add t d = (if dt_valid (t + d) then Inr (t + d) else Inl OverflowError)"

text \<open>\<^verbatim>\<open>strftime("%a")\<close> in the C locale.\<close>

definition strftime_a :: "datetime \<Rightarrow> string" where
  "strftime_a t = [''Mon'', ''Tue'', ''Wed'', ''Thu'', ''Fri'', ''Sat'', ''Sun''] ! nat (weekday t)"

subsection \<open>Strings: \<^verbatim>\<open>str\<close>, \<^verbatim>\<open>int\<close>, \<^verbatim>\<open>lower\<close>, \<^verbatim>\<open>capitalize\<close>\<close>

definition digit_chars :: string where
  "digit_chars = ''0123456789''"

function str_of_pos :: "int \<Rightarrow> string" where
  "str_of_pos n = (if n < 10 then [digit_chars ! nat n]
                   else str_of_pos (n div 10) @ [digit_chars ! nat (n mod 10)])"
  by pat_completeness auto
termination
  by (relation "measure nat") auto

definition str_of_int :: "int \<Rightarrow> string" where
  "str_of_int i = (if i < 0 then CHR ''-'' # str_of_pos (- i) else str_of_pos i)"

text \<open>\<^verbatim>\<open>str(v)\<close>, also what \<^verbatim>\<open>%s\<close> formats.\<close>

fun py_str :: "yval \<Rightarrow> string" where
  "py_str (YStr s) = s"
| "py_str (YInt i) = str_of_int i"

definition is_digit :: "char \<Rightarrow> bool" where
  "is_digit c = (c \<in> set digit_chars)"

definition digit_val :: "char \<Rightarrow> int" where
  "digit_val c = (case map_of (zip digit_chars [0, 1, 2, 3, 4, 5, 6, 7, 8, 9]) c of
                    Some v \<Rightarrow> v | None \<Rightarrow> 0)"

definition int_of_digits :: "string \<Rightarrow> int" where
  "int_of_digits s = foldl (\<lambda>acc c. 10 * acc + digit_val c) 0 s"

text \<open>
  The white space that \<^verbatim>\<open>int\<close> strips from a string, among the characters up to 255:
  tab to carriage return, the space, and the two white-space characters beyond ASCII.
\<close>

definition is_space :: "char \<Rightarrow> bool" where
  "is_space c = (c \<in> set [CHR '' '', CHR 0x09, CHR 0x0A, CHR 0x0B, CHR 0x0C, CHR 0x0D,
                          CHR 0x85, CHR 0xA0])"

definition strip :: "string \<Rightarrow> string" where
  "strip s = rev (dropWhile is_space (rev (dropWhile is_space s)))"

text \<open>
  The limit of the interpreter on conversions between \<^verbatim>\<open>int\<close> and \<^verbatim>\<open>str\<close>: at most
  4300 digits, a \<^verbatim>\<open>ValueError\<close> beyond.
\<close>

definition max_str_digits :: int where
  "max_str_digits = 4300"

function num_digits :: "int \<Rightarrow> int" where
  "num_digits n = (if n < 10 then 1 else 1 + num_digits (n div 10))"
  by pat_completeness auto
termination
  by (relation "measure nat") auto

text \<open>\<^verbatim>\<open>str(v)\<close> raises nothing: a string, or an integer within the limit.\<close>

fun str_limit_ok :: "yval \<Rightarrow> bool" where
  "str_limit_ok (YStr s) = True"
| "str_limit_ok (YInt i) = (num_digits \<bar>i\<bar> \<le> max_str_digits)"

text \<open>
  The digits of an integer literal: decimal digits, single underscores allowed
  between them.
\<close>

fun digits_us :: "string \<Rightarrow> bool" where
  "digits_us [] = False"
| "digits_us [c] = is_digit c"
| "digits_us (c # d # cs) =
     (is_digit c \<and> (if d = CHR ''_'' then digits_us cs else digits_us (d # cs)))"

definition int_of_str :: "string \<Rightarrow> int option" where
  "int_of_str s =
     (let t = strip s;
          (neg, body) = (case t of
                           c # cs \<Rightarrow> if c = CHR ''-'' then (True, cs)
                                     else if c = CHR ''+'' then (False, cs) else (False, t)
                         | [] \<Rightarrow> (False, t))
      in if digits_us body \<and> int (length (filter is_digit body)) \<le> max_str_digits
         then Some ((if neg then - 1 else 1) * int_of_digits (filter is_digit body))
         else None)"

text \<open>\<^verbatim>\<open>int(v)\<close>: \<open>None\<close> is the \<^verbatim>\<open>ValueError\<close>.\<close>

fun py_int :: "yval \<Rightarrow> int option" where
  "py_int (YInt i) = Some i"
| "py_int (YStr s) = int_of_str s"

text \<open>
  \<^verbatim>\<open>lower\<close> and \<^verbatim>\<open>capitalize\<close> on the letters A to Z; other characters are left as
  they are. A day with such a character is no weekday name in either reading.
\<close>

definition upper_chars :: string where
  "upper_chars = ''ABCDEFGHIJKLMNOPQRSTUVWXYZ''"

definition lower_chars :: string where
  "lower_chars = ''abcdefghijklmnopqrstuvwxyz''"

definition lower_char :: "char \<Rightarrow> char" where
  "lower_char c = (case map_of (zip upper_chars lower_chars) c of Some l \<Rightarrow> l | None \<Rightarrow> c)"

definition upper_char :: "char \<Rightarrow> char" where
  "upper_char c = (case map_of (zip lower_chars upper_chars) c of Some u \<Rightarrow> u | None \<Rightarrow> c)"

definition lower :: "string \<Rightarrow> string" where
  "lower s = map lower_char s"

fun capitalize :: "string \<Rightarrow> string" where
  "capitalize [] = []"
| "capitalize (c # cs) = upper_char c # map lower_char cs"

subsection \<open>\<^verbatim>\<open>datetime.strptime\<close>\<close>

text \<open>
  \<^verbatim>\<open>strptime\<close> compiles the format into a regular expression, one group of ordered
  alternatives per directive, matches it at the front of the string (backtracking
  over the alternatives, first match wins) and rejects a match that leaves input
  over. A character class is the string of its characters.
\<close>

type_synonym charclass = string

fun match_seq :: "charclass list \<Rightarrow> string \<Rightarrow> (string \<times> string) option" where
  "match_seq [] s = Some ([], s)"
| "match_seq (c # cs) [] = None"
| "match_seq (c # cs) (x # xs) =
     (if x \<in> set c
      then (case match_seq cs xs of None \<Rightarrow> None | Some (m, r) \<Rightarrow> Some (x # m, r))
      else None)"

fun first_some :: "'a option list \<Rightarrow> 'a option" where
  "first_some [] = None"
| "first_some (None # xs) = first_some xs"
| "first_some (Some v # xs) = Some v"

fun match_groups :: "charclass list list list \<Rightarrow> string \<Rightarrow> (string list \<times> string) option" where
  "match_groups [] s = Some ([], s)"
| "match_groups (g # gs) s =
     first_some (map (\<lambda>alt. case match_seq alt s of
                                None \<Rightarrow> None
                              | Some (m, r) \<Rightarrow>
                                  (case match_groups gs r of
                                     None \<Rightarrow> None
                                   | Some (ms, r') \<Rightarrow> Some (m # ms, r'))) g)"

definition re_H :: "charclass list list" where
  "re_H = [[''2'', ''0123''], [''01'', digit_chars], [digit_chars]]"

definition re_M :: "charclass list list" where
  "re_M = [[''012345'', digit_chars], [digit_chars]]"

definition re_Y :: "charclass list list" where
  "re_Y = [[digit_chars, digit_chars, digit_chars, digit_chars]]"

definition re_m :: "charclass list list" where
  "re_m = [[''1'', ''012''], [''0'', ''123456789''], [''123456789'']]"

definition re_d :: "charclass list list" where
  "re_d = [[''3'', ''01''], [''12'', digit_chars], [''0'', ''123456789''], [''123456789''],
           ['' '', ''123456789'']]"

definition field_val :: "string \<Rightarrow> int" where
  "field_val s = int_of_digits (filter is_digit s)"

definition is_leap :: "int \<Rightarrow> bool" where
  "is_leap y = (y mod 4 = 0 \<and> (y mod 100 \<noteq> 0 \<or> y mod 400 = 0))"

definition days_in_month :: "int \<Rightarrow> int \<Rightarrow> int" where
  "days_in_month y m =
     (if m = 2 then (if is_leap y then 29 else 28)
      else if m \<in> {4, 6, 9, 11} then 30 else 31)"

definition days_before_year :: "int \<Rightarrow> int" where
  "days_before_year y = (y - 1) * 365 + (y - 1) div 4 - (y - 1) div 100 + (y - 1) div 400"

definition days_before_month :: "int \<Rightarrow> int \<Rightarrow> int" where
  "days_before_month y m = sum_list (map (days_in_month y) [1 .. m - 1])"

definition ymd2ord :: "int \<Rightarrow> int \<Rightarrow> int \<Rightarrow> int" where
  "ymd2ord y m d = days_before_year y + days_before_month y m + d"

text \<open>
  \<^verbatim>\<open>strptime(s, '%H%M')\<close>: the date defaults to 1900-01-01 (ordinal 693596).
  \<open>None\<close> is the \<^verbatim>\<open>ValueError\<close>.
\<close>

definition strptime_HM :: "string \<Rightarrow> datetime option" where
  "strptime_HM s =
     (case match_groups [re_H, re_M] s of
        Some ([h, m], []) \<Rightarrow> Some (mk_datetime 693596 (field_val h) (field_val m))
      | _ \<Rightarrow> None)"

definition strptime_Ymd :: "string \<Rightarrow> datetime option" where
  "strptime_Ymd s =
     (case match_groups [re_Y, re_m, re_d] s of
        Some ([y, m, d], []) \<Rightarrow>
          (if 1 \<le> field_val y \<and> 1 \<le> field_val m \<and> field_val m \<le> 12 \<and> 1 \<le> field_val d
              \<and> field_val d \<le> days_in_month (field_val y) (field_val m)
           then Some (combine (ymd2ord (field_val y) (field_val m) (field_val d)) 0)
           else None)
      | _ \<Rightarrow> None)"

section \<open>\<^verbatim>\<open>meeting.py\<close>: schedules\<close>

definition DATES :: "string \<Rightarrow> int option" where
  "DATES = map_of [(''Monday'', 693596), (''Tuesday'', 693597), (''Wednesday'', 693598),
                   (''Thursday'', 693599), (''Friday'', 693600), (''Saturday'', 693601),
                   (''Sunday'', 693602)]"

definition ONE_WEEK :: timedelta where
  "ONE_WEEK = timedelta_days 7"

definition WEEKDAYS :: "string \<Rightarrow> int option" where
  "WEEKDAYS = map_of [(''Monday'', 0), (''Tuesday'', 1), (''Wednesday'', 2), (''Thursday'', 3),
                      (''Friday'', 4), (''Saturday'', 5), (''Sunday'', 6)]"

definition supported_frequencies :: "yval \<Rightarrow> int option" where
  "supported_frequencies = map_of [(YStr ''weekly'', 1), (YStr ''biweekly'', 2)]"

record Schedule =
  project :: string
  filefrom :: string
  utc :: yval
  time :: datetime
  day :: string
  irc :: yval
  freq :: yval
  freq_interval :: int
  start_date :: datetime
  duration :: int
  meeting_start :: datetime
  meeting_end :: datetime

record Meeting =
  project :: string
  filefrom :: string
  schedules :: "Schedule list"

text \<open>\<^verbatim>\<open>datetime.strptime(sched_yaml['time'], '%H%M')\<close>\<close>

fun parse_time :: "yval \<Rightarrow> error + datetime" where
  "parse_time (YInt i) = Inl TypeError"
| "parse_time (YStr s) = (case strptime_HM s of None \<Rightarrow> Inl StrptimeError | Some t \<Rightarrow> Inr t)"

text \<open>\<^verbatim>\<open>sched_yaml['day'].lower().capitalize()\<close>\<close>

fun sanitize_day :: "yval \<Rightarrow> error + string" where
  "sanitize_day (YInt i) = Inl AttributeError"
| "sanitize_day (YStr s) = Inr (capitalize (lower s))"

definition quote :: string where
  "quote = [CHR 0x27]"

text \<open>
  The optional \<^verbatim>\<open>start_date\<close>; \<open>now\<close> is what \<^verbatim>\<open>datetime.utcnow()\<close> returns. When
  \<^verbatim>\<open>str\<close> of the value raises the \<^verbatim>\<open>ValueError\<close> of the digit limit, the handler's own
  \<^verbatim>\<open>%s\<close> of the value raises it again.
\<close>

definition parse_start_date :: "datetime \<Rightarrow> string \<Rightarrow> sched_yaml \<Rightarrow> error + datetime" where
  "parse_start_date now ff y =
     (case y ''start_date'' of
        None \<Rightarrow> Inr now
      | Some v \<Rightarrow>
          (if \<not> str_limit_ok v then Inl DigitLimitError
           else (case strptime_Ymd (py_str v) of
                   None \<Rightarrow> Inl (ValueError (''Could not parse '' @ quote @ ''start_date'' @ quote
                                             @ '' ('' @ py_str v @ '') in '' @ ff))
                 | Some t \<Rightarrow> Inr t)))"

definition parse_duration :: "string \<Rightarrow> sched_yaml \<Rightarrow> error + int" where
  "parse_duration ff y =
     (case y ''duration'' of
        None \<Rightarrow> Inr 60
      | Some v \<Rightarrow>
          (case py_int v of
             None \<Rightarrow> Inl (ValueError (''Could not parse '' @ quote @ ''duration'' @ quote
                                       @ '' ('' @ py_str v @ '') in '' @ ff))
           | Some n \<Rightarrow> Inr n))"

text \<open>
  The slot within the canonical week of 1900-01-01: \<open>meeting_start\<close> and
  \<open>meeting_end\<close>, moved back a week when a Sunday slot ends on a Monday.
\<close>

definition week_interval :: "string \<Rightarrow> datetime \<Rightarrow> int \<Rightarrow> error + (datetime \<times> datetime)" where
  "week_interval d tm dur =
     (case DATES d of
        None \<Rightarrow> Inl (KeyError (YStr d))
      | Some date \<Rightarrow>
          (let ms = combine date (dt_time tm) in
           case timedelta_minutes dur of
             Inl e \<Rightarrow> Inl e
           | Inr td \<Rightarrow>
               (case dt_add ms td of
                  Inl e \<Rightarrow> Inl e
                | Inr me \<Rightarrow>
                    if d = ''Sunday'' \<and> strftime_a me = ''Mon''
                    then (case dt_add ms (- ONE_WEEK) of
                            Inl e \<Rightarrow> Inl e
                          | Inr ms' \<Rightarrow>
                              (case dt_add me (- ONE_WEEK) of
                                 Inl e \<Rightarrow> Inl e
                               | Inr me' \<Rightarrow> Inr (ms', me')))
                    else Inr (ms, me))))"

text \<open>Sequencing: an exception of the first step ends the computation.\<close>

definition bind :: "error + 'a \<Rightarrow> ('a \<Rightarrow> error + 'b) \<Rightarrow> error + 'b" where
  "bind r f = (case r of Inl e \<Rightarrow> Inl e | Inr v \<Rightarrow> f v)"

definition lookup_frequency :: "yval \<Rightarrow> error + int" where
  "lookup_frequency fq =
     (case supported_frequencies fq of None \<Rightarrow> Inl (KeyError fq) | Some iv \<Rightarrow> Inr iv)"

definition check_day :: "string \<Rightarrow> error + unit" where
  "check_day d =
     (if DATES d = None
      then Inl (ValueError (quote @ ''%s'' @ quote @ '' is not a valid day of the week''))
      else Inr ())"

text \<open>\<^verbatim>\<open>Schedule.__init__(self, meeting, sched_yaml)\<close>\<close>

definition Schedule_init :: "datetime \<Rightarrow> Meeting \<Rightarrow> sched_yaml \<Rightarrow> error + Schedule" where
  "Schedule_init now meeting y =
     bind (getitem y ''time'') (\<lambda>tv.
     bind (parse_time tv) (\<lambda>tm.
     bind (getitem y ''day'') (\<lambda>dv.
     bind (sanitize_day dv) (\<lambda>d.
     bind (getitem y ''irc'') (\<lambda>ch.
     bind (getitem y ''frequency'') (\<lambda>fq.
     bind (lookup_frequency fq) (\<lambda>iv.
     bind (parse_start_date now (Meeting.filefrom meeting) y) (\<lambda>sd.
     bind (parse_duration (Meeting.filefrom meeting) y) (\<lambda>dur.
     bind (check_day d) (\<lambda>u.
     bind (week_interval d tm dur) (\<lambda>w.
       Inr (Schedule.make (Meeting.project meeting) (Meeting.filefrom meeting)
              tv tm d ch fq iv sd dur (fst w) (snd w)))))))))))))"

definition alternating :: "yval set" where
  "alternating = {YStr ''biweekly-odd'', YStr ''biweekly-even''}"

text \<open>\<^verbatim>\<open>Schedule.conflicts(self, other)\<close>\<close>

definition conflicts :: "Schedule \<Rightarrow> Schedule \<Rightarrow> bool" where
  "conflicts self other =
     (irc self = irc other \<and>
      (meeting_start self < meeting_end other \<and> meeting_start other < meeting_end self) \<and>
      {freq self, freq other} \<noteq> alternating)"

text \<open>\<^verbatim>\<open>Schedule.next_occurrence(self)\<close>\<close>

definition next_occurrence :: "Schedule \<Rightarrow> error + datetime" where
  "next_occurrence self =
     (case WEEKDAYS (day self) of
        None \<Rightarrow> Inl (KeyError (YStr (day self)))
      | Some wd \<Rightarrow>
          (let days_ahead = wd - weekday (start_date self);
               days_ahead = (if days_ahead < 0 then days_ahead + 7 else days_ahead)
           in case dt_add (start_date self) (timedelta_days days_ahead) of
                Inl e \<Rightarrow> Inl e
              | Inr next_meeting \<Rightarrow>
                  Inr (mk_datetime (toordinal next_meeting)
                         (dt_hour (time self)) (dt_minute (time self)))))"

section \<open>\<^verbatim>\<open>meeting.py\<close>: expansion and conflict detection\<close>

record MeetingInstance =
  project :: string
  start :: datetime
  instance_end :: datetime

text \<open>\<^verbatim>\<open>MeetingInstance.__init__(self, project, start, duration)\<close>\<close>

definition MeetingInstance_init :: "string \<Rightarrow> datetime \<Rightarrow> int \<Rightarrow> error + MeetingInstance" where
  "MeetingInstance_init proj st dur =
     bind (timedelta_minutes dur) (\<lambda>td.
     bind (dt_add st td) (\<lambda>en.
       Inr (MeetingInstance.make proj st en)))"

text \<open>
  \<^verbatim>\<open>rrule(WEEKLY, dtstart=t, interval=n).between(after, before, inc=True)\<close> of
  \<^verbatim>\<open>dateutil\<close>: the rule generates \<open>t\<close>, \<open>t + 7n\<close> days, \<open>t + 14n\<close> days, ... in
  this order; \<^verbatim>\<open>between\<close> stops at the first one later than \<open>before\<close> and keeps those
  not earlier than \<open>after\<close>. The source passes \<open>n = 1\<close> or \<open>n = 2\<close> only; the loop
  below gives no occurrence for a step that does not advance.
\<close>

function between_from :: "timedelta \<Rightarrow> datetime \<Rightarrow> datetime \<Rightarrow> datetime \<Rightarrow> datetime list" where
  "between_from step t after before =
     (if step \<le> 0 \<or> before < t then []
      else if after \<le> t then t # between_from step (t + step) after before
      else between_from step (t + step) after before)"
  by pat_completeness auto
termination
  by (relation "measure (\<lambda>(step, t, after, before). nat (before - t + 1))") auto

definition rrule_between :: "datetime \<Rightarrow> int \<Rightarrow> datetime \<Rightarrow> datetime \<Rightarrow> datetime list" where
  "rrule_between dtstart interval after before =
     between_from (timedelta_days (7 * interval)) dtstart after before"

text \<open>
  The occurrences of one schedule in the window, lines 232-235 of
  \<^verbatim>\<open>check_for_meeting_conflicts\<close>.
\<close>

definition occurrences :: "datetime \<Rightarrow> datetime \<Rightarrow> Schedule \<Rightarrow> error + datetime list" where
  "occurrences window_start window_end schedule =
     bind (next_occurrence schedule) (\<lambda>t0.
       Inr (rrule_between t0 (freq_interval schedule) window_start window_end))"

text \<open>
  \<^verbatim>\<open>allinstances\<close>, a \<^verbatim>\<open>defaultdict(list)\<close>: the channels in the order of their first
  insertion, each with its list of instances.
\<close>

type_synonym allinstances = "(yval \<times> MeetingInstance list) list"

fun append_instance :: "yval \<Rightarrow> MeetingInstance \<Rightarrow> allinstances \<Rightarrow> allinstances" where
  "append_instance k v [] = [(k, [v])]"
| "append_instance k v ((k', vs) # rest) =
     (if k = k' then (k', vs @ [v]) # rest else (k', vs) # append_instance k v rest)"

fun add_occurrences :: "string \<Rightarrow> Schedule \<Rightarrow> datetime list \<Rightarrow> allinstances \<Rightarrow> error + allinstances" where
  "add_occurrences proj schedule [] acc = Inr acc"
| "add_occurrences proj schedule (occurrence_start # rest) acc =
     bind (MeetingInstance_init proj occurrence_start (duration schedule)) (\<lambda>mi.
       add_occurrences proj schedule rest (append_instance (irc schedule) mi acc))"

fun expand_schedules :: "datetime \<Rightarrow> datetime \<Rightarrow> string \<Rightarrow> Schedule list \<Rightarrow> allinstances \<Rightarrow> error + allinstances" where
  "expand_schedules ws we proj [] acc = Inr acc"
| "expand_schedules ws we proj (schedule # rest) acc =
     bind (occurrences ws we schedule) (\<lambda>occ.
     bind (add_occurrences proj schedule occ acc) (\<lambda>acc'.
       expand_schedules ws we proj rest acc'))"

fun expand_meetings :: "datetime \<Rightarrow> datetime \<Rightarrow> Meeting list \<Rightarrow> allinstances \<Rightarrow> error + allinstances" where
  "expand_meetings ws we [] acc = Inr acc"
| "expand_meetings ws we (m # rest) acc =
     bind (expand_schedules ws we (Meeting.project m) (schedules m) acc) (\<lambda>acc'.
       expand_meetings ws we rest acc')"

text \<open>The test of lines 246-247 on the instances with indices \<open>i\<close> and \<open>j\<close>.\<close>

definition overlap :: "MeetingInstance \<Rightarrow> MeetingInstance \<Rightarrow> bool" where
  "overlap a b = (start a < instance_end b \<and> instance_end a > start b)"







section \<open>\<^verbatim>\<open>recurrence.py\<close>\<close>

datatype recurrence = WeeklyRecurrence | BiWeeklyRecurrence

definition supported_recurrences :: "string \<Rightarrow> recurrence option" where
  "supported_recurrences =
     map_of [(''weekly'', WeeklyRecurrence), (''biweekly'', BiWeeklyRecurrence)]"

section \<open>Sample inputs\<close>

text \<open>
  A meeting with a Sunday 23:30 slot of 60 minutes and a Monday 00:00 slot on the same
  channel, both anchored at 2015-08-01 (a Saturday).
\<close>

definition example_meeting :: Meeting where
  "example_meeting =
     \<lparr> Meeting.project = ''Nova'', Meeting.filefrom = ''nova.yaml'', schedules = [] \<rparr>"

definition yaml_sunday :: sched_yaml where
  "yaml_sunday = map_of [(''time'', YStr ''2330''), (''day'', YStr ''Sunday''), (''irc'', YStr ''proj''),
                         (''frequency'', YStr ''weekly''), (''duration'', YInt 60),
                         (''start_date'', YInt 20150801)]"

definition yaml_monday :: sched_yaml where
  "yaml_monday = map_of [(''time'', YStr ''0000''), (''day'', YStr ''Monday''), (''irc'', YStr ''proj''),
                         (''frequency'', YStr ''weekly''), (''start_date'', YInt 20150801)]"

definition sched_sunday :: Schedule where
  "sched_sunday = \<lparr> Schedule.project = ''Nova'', filefrom = ''nova.yaml'', utc = YStr ''2330'',
       time = 59926779000000000, day = ''Sunday'', irc = YStr ''proj'', freq = YStr ''weekly'',
       freq_interval = 1, start_date = 63574070400000000, duration = 60,
       meeting_start = 59926692600000000, meeting_end = 59926696200000000 \<rparr>"

definition sched_monday :: Schedule where
  "sched_monday = \<lparr> Schedule.project = ''Nova'', filefrom = ''nova.yaml'', utc = YStr ''0000'',
       time = 59926694400000000, day = ''Monday'', irc = YStr ''proj'', freq = YStr ''weekly'',
       freq_interval = 1, start_date = 63574070400000000, duration = 60,
       meeting_start = 59926694400000000, meeting_end = 59926698000000000 \<rparr>"

text \<open>
  A Monday 10:00 slot without \<open>start_date\<close> (the anchor is then the current time), and a
  Saturday slot anchored at 9999-12-31 (a Friday).
\<close>

definition yaml_default :: sched_yaml where
  "yaml_default = map_of [(''time'', YStr ''1000''), (''day'', YStr ''Monday''), (''irc'', YStr ''proj''),
                          (''frequency'', YStr ''weekly'')]"

definition sched_default :: Schedule where
  "sched_default = \<lparr> Schedule.project = ''Nova'', filefrom = ''nova.yaml'', utc = YStr ''1000'',
       time = 59926730400000000, day = ''Monday'', irc = YStr ''proj'', freq = YStr ''weekly'',
       freq_interval = 1, start_date = 63574297200000000, duration = 60,
       meeting_start = 59926730400000000, meeting_end = 59926734000000000 \<rparr>"

definition yaml_9999 :: sched_yaml where
  "yaml_9999 = map_of [(''time'', YStr ''1000''), (''day'', YStr ''Saturday''), (''irc'', YStr ''proj''),
                       (''frequency'', YStr ''weekly''), (''start_date'', YInt 99991231)]"

definition sched_9999 :: Schedule where
  "sched_9999 = \<lparr> Schedule.project = ''Nova'', filefrom = ''nova.yaml'', utc = YStr ''1000'',
       time = 59926730400000000, day = ''Saturday'', irc = YStr ''proj'', freq = YStr ''weekly'',
       freq_interval = 1, start_date = 315537897600000000, duration = 60,
       meeting_start = 59927162400000000, meeting_end = 59927166000000000 \<rparr>"

text \<open>The Sunday slot of above, every other week.\<close>

definition yaml_biweekly :: sched_yaml where
  "yaml_biweekly = map_of [(''time'', YStr ''2330''), (''day'', YStr ''Sunday''), (''irc'', YStr ''proj''),
                           (''frequency'', YStr ''biweekly''), (''duration'', YInt 60),
                           (''start_date'', YInt 20150801)]"

definition sched_biweekly :: Schedule where
  "sched_biweekly = sched_sunday\<lparr>freq := YStr ''biweekly'', freq_interval := 2\<rparr>"

text \<open>
  The two slots as the schedules of one meeting, and their instances in a window that
  ends on 2015-08-09: Sunday 2015-08-02 23:30 and Monday 2015-08-03 00:00, an hour each.
\<close>

definition example_meetings :: "Meeting list" where
  "example_meetings = [example_meeting\<lparr>schedules := [sched_sunday, sched_monday]\<rparr>]"

definition inst_sunday :: MeetingInstance where
  "inst_sunday = \<lparr> MeetingInstance.project = ''Nova'', start = 63574241400000000,
                   instance_end = 63574245000000000 \<rparr>"

definition inst_monday :: MeetingInstance where
  "inst_monday = \<lparr> MeetingInstance.project = ''Nova'', start = 63574243200000000,
                   instance_end = 63574246800000000 \<rparr>"

definition example_instances :: allinstances where
  "example_instances = [(YStr ''proj'', [inst_sunday, inst_monday])]"

section \<open>The scan order of the detector\<close>



section \<open>Basic facts\<close>

declare num_digits.simps [simp del]

lemma bind_Inr_iff: "bind r f = Inr v \<longleftrightarrow> (\<exists>x. r = Inr x \<and> f x = Inr v)"
  by (cases r) (simp_all add: bind_def)

lemma bind_simps [simp]: "bind (Inl e) f = Inl e" "bind (Inr x) f = f x"
  by (simp_all add: bind_def)

lemma getitem_Inr: "getitem y k = Inr v \<longleftrightarrow> y k = Some v"
  by (simp add: getitem_def split: option.splits)

lemma Schedule_init_InrD:
  assumes "Schedule_init now m y = Inr s"
  obtains tv tm dv d ch fq iv sd dur w where
    "getitem y ''time'' = Inr tv" "parse_time tv = Inr tm"
    "getitem y ''day'' = Inr dv" "sanitize_day dv = Inr d"
    "getitem y ''irc'' = Inr ch" "getitem y ''frequency'' = Inr fq"
    "lookup_frequency fq = Inr iv"
    "parse_start_date now (Meeting.filefrom m) y = Inr sd"
    "parse_duration (Meeting.filefrom m) y = Inr dur"
    "check_day d = Inr ()" "week_interval d tm dur = Inr w"
    "s = Schedule.make (Meeting.project m) (Meeting.filefrom m) tv tm d ch fq iv sd dur (fst w) (snd w)"
  using assms unfolding Schedule_init_def bind_Inr_iff by auto

lemma lookup_frequency_Inr:
  "lookup_frequency fq = Inr iv \<Longrightarrow>
     (fq = YStr ''weekly'' \<and> iv = 1) \<or> (fq = YStr ''biweekly'' \<and> iv = 2)"
  by (auto simp: lookup_frequency_def supported_frequencies_def split: if_splits option.splits)

lemma constructed_freq:
  assumes "Schedule_init now m y = Inr s"
  shows "y ''frequency'' = Some (freq s)"
    and "(freq s = YStr ''weekly'' \<and> freq_interval s = 1)
         \<or> (freq s = YStr ''biweekly'' \<and> freq_interval s = 2)"
proof -
  from assms obtain tv tm dv d ch fq iv sd dur w where
    f: "getitem y ''frequency'' = Inr fq" "lookup_frequency fq = Inr iv"
    and s: "s = Schedule.make (Meeting.project m) (Meeting.filefrom m) tv tm d ch fq iv sd dur (fst w) (snd w)"
    by (rule Schedule_init_InrD)
  from s have fs: "freq s = fq" "freq_interval s = iv" by (simp_all add: Schedule.make_def)
  from f(1) fs show "y ''frequency'' = Some (freq s)" by (simp add: getitem_Inr)
  from lookup_frequency_Inr [OF f(2)] fs
  show "(freq s = YStr ''weekly'' \<and> freq_interval s = 1)
        \<or> (freq s = YStr ''biweekly'' \<and> freq_interval s = 2)"
    by simp
qed

lemma dt_add_Inr: "dt_add t d = Inr r \<longleftrightarrow> (dt_valid (t + d) \<and> r = t + d)"
  by (auto simp: dt_add_def)

lemma timedelta_minutes_Inr: "timedelta_minutes n = Inr td \<Longrightarrow> td = n * usec_per_minute"
  by (simp add: timedelta_minutes_def split: if_splits)

lemma Schedule_make_sel:
  "Schedule.project (Schedule.make p f u t d c q i sd du ms me) = p"
  "time (Schedule.make p f u t d c q i sd du ms me) = t"
  "day (Schedule.make p f u t d c q i sd du ms me) = d"
  "irc (Schedule.make p f u t d c q i sd du ms me) = c"
  "freq (Schedule.make p f u t d c q i sd du ms me) = q"
  "freq_interval (Schedule.make p f u t d c q i sd du ms me) = i"
  "start_date (Schedule.make p f u t d c q i sd du ms me) = sd"
  "duration (Schedule.make p f u t d c q i sd du ms me) = du"
  "meeting_start (Schedule.make p f u t d c q i sd du ms me) = ms"
  "meeting_end (Schedule.make p f u t d c q i sd du ms me) = me"
  by (simp_all add: Schedule.make_def)

lemma week_interval_Inr:
  assumes "week_interval d tm dur = Inr w"
  shows "\<exists>date. DATES d = Some date
    \<and> (d = ''Sunday'' \<and> weekday (combine date (dt_time tm) + dur * usec_per_minute) = 0 \<longrightarrow>
           w = (combine date (dt_time tm) - ONE_WEEK,
                combine date (dt_time tm) + dur * usec_per_minute - ONE_WEEK))
    \<and> (\<not> (d = ''Sunday'' \<and> strftime_a (combine date (dt_time tm) + dur * usec_per_minute) = ''Mon'') \<longrightarrow>
           w = (combine date (dt_time tm), combine date (dt_time tm) + dur * usec_per_minute))
    \<and> dt_valid (combine date (dt_time tm) + dur * usec_per_minute)"
proof -
  from assms obtain date where d: "DATES d = Some date"
    by (auto simp: week_interval_def split: option.splits)
  let ?ms = "combine date (dt_time tm)"
  from assms d obtain td where td: "timedelta_minutes dur = Inr td"
    by (auto simp: week_interval_def Let_def split: sum.splits)
  then have tdv: "td = dur * usec_per_minute" by (rule timedelta_minutes_Inr)
  from assms d td obtain me where me: "dt_add ?ms td = Inr me"
    by (auto simp: week_interval_def Let_def split: sum.splits)
  then have mev: "me = ?ms + dur * usec_per_minute" and val: "dt_valid (?ms + dur * usec_per_minute)"
    using tdv by (simp_all add: dt_add_Inr)
  have mon: "strftime_a me = ''Mon''" if "weekday me = 0" for me
    using that by (simp add: strftime_a_def)
  have w: "(if d = ''Sunday'' \<and> strftime_a me = ''Mon''
            then (case dt_add ?ms (- ONE_WEEK) of Inl e \<Rightarrow> Inl e
                  | Inr ms' \<Rightarrow> (case dt_add me (- ONE_WEEK) of Inl e \<Rightarrow> Inl e | Inr me' \<Rightarrow> Inr (ms', me')))
            else Inr (?ms, me)) = Inr w"
    using assms d td me by (simp add: week_interval_def Let_def)
  have 1: "w = (?ms - ONE_WEEK, ?ms + dur * usec_per_minute - ONE_WEEK)"
    if "d = ''Sunday'' \<and> weekday (?ms + dur * usec_per_minute) = 0"
  proof -
    from that have c: "d = ''Sunday'' \<and> strftime_a me = ''Mon''" using mon mev by simp
    with w show ?thesis using mev by (auto simp: dt_add_Inr split: sum.splits)
  qed
  have 2: "w = (?ms, ?ms + dur * usec_per_minute)"
    if "\<not> (d = ''Sunday'' \<and> strftime_a (?ms + dur * usec_per_minute) = ''Mon'')"
    using that w mev by auto
  from d 1 2 val show ?thesis by blast
qed


lemma parse_time_2330: "strptime_HM ''2330'' = Some 59926779000000000"
  by code_simp





lemma match_seq_classes:
  "match_seq cs s = Some (mt, r) \<Longrightarrow> list_all2 (\<lambda>x c. x \<in> set c) mt cs"
proof (induction cs s arbitrary: mt r rule: match_seq.induct)
  case (1 s)
  then show ?case by simp
next
  case (2 c cs)
  then show ?case by simp
next
  case (3 c cs x xs)
  then show ?case by (auto split: if_splits option.splits)
qed

lemma first_some_map:
  "first_some (map f xs) = Some v \<Longrightarrow> \<exists>x \<in> set xs. f x = Some v"
proof (induction xs)
  case Nil
  then show ?case by simp
next
  case (Cons a xs)
  then show ?case by (cases "f a") auto
qed

lemma match_groups_classes:
  "match_groups gs s = Some (ms, r) \<Longrightarrow>
     list_all2 (\<lambda>m g. \<exists>alt \<in> set g. list_all2 (\<lambda>x c. x \<in> set c) m alt) ms gs"
proof (induction gs arbitrary: s ms r)
  case Nil
  then show ?case by simp
next
  case (Cons g gs)
  from Cons.prems obtain alt where alt: "alt \<in> set g"
    and f: "(case match_seq alt s of None \<Rightarrow> None
             | Some (m, r0) \<Rightarrow> (case match_groups gs r0 of None \<Rightarrow> None
                                 | Some (ms0, r') \<Rightarrow> Some (m # ms0, r'))) = Some (ms, r)"
    by (auto dest: first_some_map)
  from f obtain m r0 ms0 where m: "match_seq alt s = Some (m, r0)"
    and g: "match_groups gs r0 = Some (ms0, r)" and ms: "ms = m # ms0"
    by (auto split: option.splits)
  from Cons.IH [OF g] match_seq_classes [OF m] alt ms show ?case by auto
qed

lemma digit_val_bounds:
  "c \<in> set digit_chars \<Longrightarrow> 0 \<le> digit_val c \<and> digit_val c \<le> 9 \<and> is_digit c"
  "c \<in> set ''012345'' \<Longrightarrow> 0 \<le> digit_val c \<and> digit_val c \<le> 5 \<and> is_digit c"
  "c \<in> set ''0123'' \<Longrightarrow> 0 \<le> digit_val c \<and> digit_val c \<le> 3 \<and> is_digit c"
  "c \<in> set ''01'' \<Longrightarrow> 0 \<le> digit_val c \<and> digit_val c \<le> 1 \<and> is_digit c"
  "c \<in> set ''2'' \<Longrightarrow> digit_val c = 2 \<and> is_digit c"
  by (auto simp: digit_chars_def digit_val_def is_digit_def)

lemma field_val_simps:
  "is_digit a \<Longrightarrow> field_val [a] = digit_val a"
  "is_digit a \<Longrightarrow> is_digit b \<Longrightarrow> field_val [a, b] = 10 * digit_val a + digit_val b"
  by (simp_all add: field_val_def int_of_digits_def)

lemma re_H_range:
  assumes "\<exists>alt \<in> set re_H. list_all2 (\<lambda>x c. x \<in> set c) h alt"
  shows "0 \<le> field_val h \<and> field_val h \<le> 23"
proof -
  from assms consider
    (a) c1 c2 where "h = [c1, c2]" "c1 \<in> set ''2''" "c2 \<in> set ''0123''"
  | (b) c1 c2 where "h = [c1, c2]" "c1 \<in> set ''01''" "c2 \<in> set digit_chars"
  | (c) c1 where "h = [c1]" "c1 \<in> set digit_chars"
    unfolding re_H_def by (auto simp: list_all2_Cons2)
  then show ?thesis
  proof cases
    case a
    then show ?thesis
      using digit_val_bounds(5) [of c1] digit_val_bounds(3) [of c2] by (simp add: field_val_simps)
  next
    case b
    then show ?thesis
      using digit_val_bounds(4) [of c1] digit_val_bounds(1) [of c2] by (simp add: field_val_simps)
  next
    case c
    then show ?thesis
      using digit_val_bounds(1) [of c1] by (simp add: field_val_simps)
  qed
qed

lemma re_M_range:
  assumes "\<exists>alt \<in> set re_M. list_all2 (\<lambda>x c. x \<in> set c) m alt"
  shows "0 \<le> field_val m \<and> field_val m \<le> 59"
proof -
  from assms consider
    (a) c1 c2 where "m = [c1, c2]" "c1 \<in> set ''012345''" "c2 \<in> set digit_chars"
  | (b) c1 where "m = [c1]" "c1 \<in> set digit_chars"
    unfolding re_M_def by (auto simp: list_all2_Cons2)
  then show ?thesis
  proof cases
    case a
    then show ?thesis
      using digit_val_bounds(2) [of c1] digit_val_bounds(1) [of c2] by (simp add: field_val_simps)
  next
    case b
    then show ?thesis
      using digit_val_bounds(1) [of c1] by (simp add: field_val_simps)
  qed
qed

lemma strptime_HM_range:
  assumes "strptime_HM s = Some t"
  shows "\<exists>h m. t = mk_datetime 693596 h m \<and> 0 \<le> h \<and> h \<le> 23 \<and> 0 \<le> m \<and> m \<le> 59"
proof -
  from assms obtain h m where mg: "match_groups [re_H, re_M] s = Some ([h, m], [])"
    and t: "t = mk_datetime 693596 (field_val h) (field_val m)"
    by (auto simp: strptime_HM_def split: option.splits list.splits prod.splits)
  from match_groups_classes [OF mg]
  have "\<exists>alt \<in> set re_H. list_all2 (\<lambda>x c. x \<in> set c) h alt"
    and "\<exists>alt \<in> set re_M. list_all2 (\<lambda>x c. x \<in> set c) m alt"
    by simp_all
  with re_H_range re_M_range t show ?thesis by blast
qed

lemma usec_pos: "0 < usec_per_day" "0 < usec_per_hour" "0 < usec_per_minute"
  by (simp_all add: usec_per_day_def usec_per_hour_def usec_per_minute_def)

lemma div_mod_offset:
  fixes a b d :: int
  assumes "0 \<le> b" "b < d"
  shows "(a * d + b) div d = a" "(a * d + b) mod d = b"
  using assms by (simp_all add: div_pos_pos_trivial)

lemma time_of_day_range:
  assumes "0 \<le> h" "h \<le> 23" "0 \<le> m" "m \<le> 59"
  shows "0 \<le> h * usec_per_hour + m * usec_per_minute"
    and "h * usec_per_hour + m * usec_per_minute < usec_per_day"
    and "m * usec_per_minute < usec_per_hour"
    and "0 \<le> m * usec_per_minute"
  using assms by (simp_all add: usec_per_day_def usec_per_hour_def usec_per_minute_def)

lemma mk_datetime_fields:
  assumes "0 \<le> h" "h \<le> 23" "0 \<le> m" "m \<le> 59"
  shows "toordinal (mk_datetime ordinal h m) = ordinal"
    and "dt_time (mk_datetime ordinal h m) = h * usec_per_hour + m * usec_per_minute"
    and "dt_hour (mk_datetime ordinal h m) = h"
    and "dt_minute (mk_datetime ordinal h m) = m"
proof -
  let ?tod = "h * usec_per_hour + m * usec_per_minute"
  note r = time_of_day_range [OF assms]
  have mk: "mk_datetime ordinal h m = ordinal * usec_per_day + ?tod"
    by (simp add: mk_datetime_def)
  show o: "toordinal (mk_datetime ordinal h m) = ordinal"
    unfolding toordinal_def mk using r(1,2) by (rule div_mod_offset(1))
  show t: "dt_time (mk_datetime ordinal h m) = ?tod"
    unfolding dt_time_def mk using r(1,2) by (rule div_mod_offset(2))
  show "dt_hour (mk_datetime ordinal h m) = h"
    unfolding dt_hour_def t using r(4,3) by (rule div_mod_offset(1))
  have "?tod mod usec_per_hour = m * usec_per_minute"
    using r(4,3) by (rule div_mod_offset(2))
  then show "dt_minute (mk_datetime ordinal h m) = m"
    unfolding dt_minute_def t using usec_pos by simp
qed

lemma weekday_range: "0 \<le> weekday t \<and> weekday t \<le> 6"
  by (simp add: weekday_def)

lemma WEEKDAYS_of_DATES:
  assumes "DATES d \<noteq> None"
  shows "\<exists>wd. WEEKDAYS d = Some wd \<and> 0 \<le> wd \<and> wd \<le> 6"
  using assms by (auto simp: DATES_def WEEKDAYS_def split: if_splits)

lemma toordinal_add_days:
  "toordinal (t + timedelta_days n) = toordinal t + n"
  using usec_pos by (simp add: toordinal_def timedelta_days_def)

lemma dt_time_add_days:
  "dt_time (t + timedelta_days n) = dt_time t"
  by (simp add: dt_time_def timedelta_days_def)

lemma div_lower_iff:
  fixes t d a :: int
  assumes "0 < d"
  shows "a * d \<le> t \<longleftrightarrow> a \<le> t div d"
proof
  assume "a * d \<le> t"
  then have "(a * d) div d \<le> t div d" using assms by (rule zdiv_mono1)
  then show "a \<le> t div d" using assms by simp
next
  assume "a \<le> t div d"
  then have "a * d \<le> (t div d) * d" using assms by (simp add: mult_right_mono)
  also have "(t div d) * d \<le> t"
  proof -
    have "t = (t div d) * d + t mod d" by simp
    moreover have "0 \<le> t mod d" using assms by simp
    ultimately show ?thesis by linarith
  qed
  finally show "a * d \<le> t" .
qed

lemma div_upper_iff:
  fixes t d b :: int
  assumes "0 < d"
  shows "t < (b + 1) * d \<longleftrightarrow> t div d \<le> b"
  using div_lower_iff [OF assms, of "b + 1" t] by auto

lemma dt_valid_iff:
  "dt_valid t \<longleftrightarrow> MINORDINAL \<le> toordinal t \<and> toordinal t \<le> MAXORDINAL"
  unfolding dt_valid_def toordinal_def
  using div_lower_iff [OF usec_pos(1)] div_upper_iff [OF usec_pos(1)] by simp

lemma toordinal_floor: "toordinal t * usec_per_day \<le> t \<and> t < (toordinal t + 1) * usec_per_day"
  using div_lower_iff [OF usec_pos(1), of "toordinal t" t]
        div_upper_iff [OF usec_pos(1), of t "toordinal t"]
  by (simp add: toordinal_def)

lemma days_ahead_props:
  fixes wd o6 :: int
  assumes "0 \<le> wd" "wd \<le> 6"
  defines "da \<equiv> (if wd - o6 mod 7 < 0 then wd - o6 mod 7 + 7 else wd - o6 mod 7)"
  shows "0 \<le> da" "da \<le> 6" "(o6 + da) mod 7 = wd" "da = 0 \<longleftrightarrow> wd = o6 mod 7"
proof -
  define r where "r = o6 mod 7"
  define q where "q = o6 div 7"
  have r: "0 \<le> r" "r < 7" by (simp_all add: r_def)
  have o: "o6 = 7 * q + r" by (simp add: r_def q_def)
  have da: "da = (if wd - r < 0 then wd - r + 7 else wd - r)" by (simp add: da_def r_def)
  show "0 \<le> da" "da \<le> 6" using assms(1,2) r da by (simp_all split: if_splits)
  show "da = 0 \<longleftrightarrow> wd = o6 mod 7" using assms(1,2) r da by (auto simp: r_def split: if_splits)
  show "(o6 + da) mod 7 = wd"
  proof (cases "wd - r < 0")
    case True
    then have "o6 + da = 7 * (q + 1) + wd" using o da by simp
    then have "(o6 + da) mod 7 = wd mod 7" by (simp only: mod_mult_self4)
    then show ?thesis using assms(1,2) by simp
  next
    case False
    then have "o6 + da = 7 * q + wd" using o da by simp
    then have "(o6 + da) mod 7 = wd mod 7" by (simp only: mod_mult_self4)
    then show ?thesis using assms(1,2) by simp
  qed
qed


lemma next_occurrence_spec:
  assumes wd: "WEEKDAYS (day s) = Some wd" "0 \<le> wd" "wd \<le> 6"
    and tm: "time s = mk_datetime 693596 h m" "0 \<le> h" "h \<le> 23" "0 \<le> m" "m \<le> 59"
    and lo: "MINORDINAL \<le> toordinal (start_date s)"
    and hi: "toordinal (start_date s) + 6 \<le> MAXORDINAL"
  shows "\<exists>t da. next_occurrence s = Inr t
           \<and> t = mk_datetime (toordinal (start_date s) + da) h m
           \<and> 0 \<le> da \<and> da \<le> 6 \<and> (da = 0 \<longleftrightarrow> wd = weekday (start_date s))
           \<and> weekday t = wd
           \<and> toordinal t = toordinal (start_date s) + da
           \<and> dt_time t = dt_time (time s) \<and> dt_hour t = h \<and> dt_minute t = m"
proof -
  let ?sd = "start_date s"
  define o6 where "o6 = toordinal ?sd + 6"
  define da where "da = (if wd - o6 mod 7 < 0 then wd - o6 mod 7 + 7 else wd - o6 mod 7)"
  note p = days_ahead_props [OF wd(2,3), of o6, folded da_def]
  have wsd: "weekday ?sd = o6 mod 7" by (simp add: weekday_def o6_def)
  have da': "(if wd - weekday ?sd < 0 then wd - weekday ?sd + 7 else wd - weekday ?sd) = da"
    unfolding wsd da_def ..
  have "MINORDINAL \<le> toordinal ?sd + da \<and> toordinal ?sd + da \<le> MAXORDINAL"
    using lo hi p(1,2) by linarith
  then have v: "dt_valid (?sd + timedelta_days da)"
    unfolding dt_valid_iff toordinal_add_days .
  have add: "dt_add ?sd (timedelta_days da) = Inr (?sd + timedelta_days da)"
    using v by (simp add: dt_add_def)
  have hm: "dt_hour (time s) = h" "dt_minute (time s) = m"
    unfolding tm(1) using mk_datetime_fields(3,4) [OF tm(2-5)] by simp_all
  define t where "t = mk_datetime (toordinal ?sd + da) h m"
  have no: "next_occurrence s = Inr t"
    unfolding next_occurrence_def
    by (simp only: wd(1) option.case Let_def da' add sum.case hm toordinal_add_days t_def)
  have ord: "toordinal t = toordinal ?sd + da"
    unfolding t_def by (rule mk_datetime_fields(1) [OF tm(2-5)])
  have "toordinal t + 6 = o6 + da" unfolding ord o6_def by simp
  then have wk: "weekday t = wd"
    unfolding weekday_def using p(3) by simp
  have tod: "dt_time t = dt_time (time s)"
    unfolding t_def tm(1) using mk_datetime_fields(2) [OF tm(2-5)] by simp
  have f: "dt_hour t = h" "dt_minute t = m"
    unfolding t_def using mk_datetime_fields(3,4) [OF tm(2-5)] by simp_all
  have z: "da = 0 \<longleftrightarrow> wd = weekday ?sd"
    using p(4) wsd by simp
  from no ord wk tod f z p(1,2) t_def show ?thesis by blast
qed


lemma days_before_year_nonneg: "1 \<le> y \<Longrightarrow> 0 \<le> days_before_year y"
proof -
  assume y: "1 \<le> y"
  have "(y - 1) div 100 \<le> (y - 1) div 4" using y by (intro zdiv_mono2) simp_all
  moreover have "0 \<le> (y - 1) div 400" using y by simp
  moreover have "0 \<le> (y - 1) * 365" using y by simp
  ultimately show ?thesis unfolding days_before_year_def by linarith
qed

lemma days_before_month_nonneg: "0 \<le> days_before_month y m"
  unfolding days_before_month_def
  by (rule sum_list_nonneg) (auto simp: days_in_month_def)

lemma strptime_Ymd_props:
  assumes "strptime_Ymd s = Some t"
  shows "dt_time t = 0 \<and> MINORDINAL \<le> toordinal t"
proof -
  from assms obtain y m d where c: "1 \<le> field_val y" "1 \<le> field_val d"
    and t: "t = combine (ymd2ord (field_val y) (field_val m) (field_val d)) 0"
    by (auto simp: strptime_Ymd_def split: option.splits list.splits prod.splits if_splits)
  have "1 \<le> ymd2ord (field_val y) (field_val m) (field_val d)"
    unfolding ymd2ord_def
    using days_before_year_nonneg [OF c(1)] days_before_month_nonneg [of "field_val y" "field_val m"] c(2)
    by linarith
  then show ?thesis
    unfolding t using usec_pos(1) by (simp add: combine_def dt_time_def toordinal_def MINORDINAL_def)
qed

lemma constructed_time:
  assumes "Schedule_init now m y = Inr s"
  shows "\<exists>h mi. time s = mk_datetime 693596 h mi \<and> 0 \<le> h \<and> h \<le> 23 \<and> 0 \<le> mi \<and> mi \<le> 59"
proof -
  from assms obtain tv tm dv d ch fq iv sd dur w where
    p: "parse_time tv = Inr tm"
    and s: "s = Schedule.make (Meeting.project m) (Meeting.filefrom m) tv tm d ch fq iv sd dur (fst w) (snd w)"
    by (rule Schedule_init_InrD)
  from p obtain str where "strptime_HM str = Some tm"
    by (cases tv) (auto split: option.splits)
  from strptime_HM_range [OF this] s show ?thesis by (simp add: Schedule_make_sel)
qed

lemma constructed_day:
  assumes "Schedule_init now m y = Inr s"
  shows "\<exists>wd. WEEKDAYS (day s) = Some wd \<and> 0 \<le> wd \<and> wd \<le> 6"
proof -
  from assms obtain tv tm dv d ch fq iv sd dur w where
    p: "check_day d = Inr ()"
    and s: "s = Schedule.make (Meeting.project m) (Meeting.filefrom m) tv tm d ch fq iv sd dur (fst w) (snd w)"
    by (rule Schedule_init_InrD)
  from p have "DATES d \<noteq> None" by (simp add: check_day_def split: if_splits)
  from WEEKDAYS_of_DATES [OF this] s show ?thesis by (simp add: Schedule_make_sel)
qed

lemma constructed_start_date:
  assumes "Schedule_init now m y = Inr s"
  shows "(y ''start_date'' = None \<and> start_date s = now)
         \<or> (\<exists>v. y ''start_date'' = Some v \<and> strptime_Ymd (py_str v) = Some (start_date s))"
proof -
  from assms obtain tv tm dv d ch fq iv sd dur w where
    p: "parse_start_date now (Meeting.filefrom m) y = Inr sd"
    and s: "s = Schedule.make (Meeting.project m) (Meeting.filefrom m) tv tm d ch fq iv sd dur (fst w) (snd w)"
    by (rule Schedule_init_InrD)
  from s have "start_date s = sd" by (simp add: Schedule_make_sel)
  with p show ?thesis by (auto simp: parse_start_date_def split: option.splits if_splits)
qed

lemma strftime_a_Mon: "strftime_a t = ''Mon'' \<longleftrightarrow> weekday t = 0"
proof -
  have r: "0 \<le> weekday t \<and> weekday t \<le> 6" by (rule weekday_range)
  then consider "weekday t = 0" | "weekday t = 1" | "weekday t = 2" | "weekday t = 3"
    | "weekday t = 4" | "weekday t = 5" | "weekday t = 6" by linarith
  then show ?thesis by cases (simp_all add: strftime_a_def)
qed

lemma DATES_range: "DATES d = Some date \<Longrightarrow> 693596 \<le> date \<and> date \<le> 693602"
  by (auto simp: DATES_def split: if_splits)

lemma dt_time_range: "0 \<le> dt_time t \<and> dt_time t < usec_per_day"
  using usec_pos(1) by (simp add: dt_time_def)

lemma toordinal_combine: "toordinal (combine date (dt_time tm)) = date"
  unfolding toordinal_def combine_def
  using dt_time_range [of tm] by (intro div_mod_offset(1)) simp_all

lemma timedelta_in_range:
  assumes v: "dt_valid (combine date tod + x)"
    and dr: "693596 \<le> date" "date \<le> 693602"
    and tr: "0 \<le> tod" "tod < usec_per_day"
  shows "- 999999999 \<le> x div usec_per_day \<and> x div usec_per_day \<le> 999999999"
proof -
  let ?D = usec_per_day
  have D: "0 < ?D" by (rule usec_pos)
  have a: "693596 * ?D \<le> date * ?D" "date * ?D \<le> 693602 * ?D"
    using dr D by (simp_all add: mult_right_mono)
  from v have b: "?D \<le> date * ?D + tod + x" "date * ?D + tod + x < 3652060 * ?D"
    by (simp_all add: dt_valid_def combine_def MINORDINAL_def MAXORDINAL_def)
  have "(- 693602) * ?D \<le> x" using a b tr by linarith
  then have lo: "- 693602 \<le> x div ?D" using div_lower_iff [OF D, of "- 693602" x] by simp
  have "x < 3652060 * ?D" using a b tr D by linarith
  then have "x < (3652059 + 1) * ?D" by simp
  then have hi: "x div ?D \<le> 3652059" using div_upper_iff [OF D, of x 3652059] by simp
  from lo hi show ?thesis by linarith
qed

lemma week_interval_Inr_iff:
  "(\<exists>w. week_interval d tm dur = Inr w) \<longleftrightarrow>
     (\<exists>date. DATES d = Some date
        \<and> dt_valid (combine date (dt_time tm) + dur * usec_per_minute)
        \<and> \<not> (d = ''Sunday''
              \<and> weekday (combine date (dt_time tm) + dur * usec_per_minute) = 0
              \<and> \<not> dt_valid (combine date (dt_time tm) + dur * usec_per_minute - ONE_WEEK)))"
  (is "?L \<longleftrightarrow> ?R")
proof
  assume ?L
  then obtain w where w: "week_interval d tm dur = Inr w" ..
  from week_interval_Inr [OF w] obtain date where d: "DATES d = Some date"
    and v: "dt_valid (combine date (dt_time tm) + dur * usec_per_minute)" by blast
  let ?ms = "combine date (dt_time tm)"
  let ?me = "?ms + dur * usec_per_minute"
  have "dt_valid (?me - ONE_WEEK)" if s: "d = ''Sunday''" "weekday ?me = 0"
  proof -
    from w d obtain td where td0: "timedelta_minutes dur = Inr td"
      by (auto simp: week_interval_def Let_def split: sum.splits)
    with timedelta_minutes_Inr have td: "timedelta_minutes dur = Inr (dur * usec_per_minute)"
      by blast
    have me: "dt_add ?ms (dur * usec_per_minute) = Inr ?me" using v by (simp add: dt_add_def)
    from w d td me s obtain me' where "dt_add ?me (- ONE_WEEK) = Inr me'"
      by (auto simp: week_interval_def Let_def strftime_a_Mon split: sum.splits)
    then show ?thesis by (simp add: dt_add_Inr)
  qed
  with d v show ?R by blast
next
  assume ?R
  then obtain date where d: "DATES d = Some date"
    and v: "dt_valid (combine date (dt_time tm) + dur * usec_per_minute)"
    and c: "\<not> (d = ''Sunday''
              \<and> weekday (combine date (dt_time tm) + dur * usec_per_minute) = 0
              \<and> \<not> dt_valid (combine date (dt_time tm) + dur * usec_per_minute - ONE_WEEK))"
    by blast
  let ?ms = "combine date (dt_time tm)"
  let ?me = "?ms + dur * usec_per_minute"
  note dr = DATES_range [OF d]
  from timedelta_in_range [OF v] dr dt_time_range [of tm]
  have td: "timedelta_minutes dur = Inr (dur * usec_per_minute)"
    by (simp add: timedelta_minutes_def)
  have me: "dt_add ?ms (dur * usec_per_minute) = Inr ?me" using v by (simp add: dt_add_def)
  have "?ms - ONE_WEEK = combine (date - 7) (dt_time tm)"
    by (simp add: combine_def ONE_WEEK_def timedelta_days_def algebra_simps)
  then have "toordinal (?ms - ONE_WEEK) = date - 7" by (simp add: toordinal_combine)
  then have "dt_valid (?ms - ONE_WEEK)"
    using dr by (simp add: dt_valid_iff MINORDINAL_def MAXORDINAL_def)
  then have msw: "dt_add ?ms (- ONE_WEEK) = Inr (?ms - ONE_WEEK)" by (simp add: dt_add_def)
  show ?L
  proof (cases "d = ''Sunday'' \<and> weekday ?me = 0")
    case True
    with c have "dt_valid (?me - ONE_WEEK)" by blast
    then have "dt_add ?me (- ONE_WEEK) = Inr (?me - ONE_WEEK)" by (simp add: dt_add_def)
    with True d td me msw show ?thesis
      by (simp add: week_interval_def Let_def strftime_a_Mon)
  next
    case False
    with d td me show ?thesis
      by (auto simp: week_interval_def Let_def strftime_a_Mon)
  qed
qed

lemma parse_time_Inr: "parse_time tv = Inr tm \<longleftrightarrow> (\<exists>ts. tv = YStr ts \<and> strptime_HM ts = Some tm)"
  by (cases tv) (auto split: option.splits)

lemma sanitize_day_Inr: "sanitize_day dv = Inr d \<longleftrightarrow> (\<exists>ds. dv = YStr ds \<and> d = capitalize (lower ds))"
  by (cases dv) auto

lemma lookup_frequency_Inr_iff:
  "(\<exists>iv. lookup_frequency fq = Inr iv) \<longleftrightarrow> fq = YStr ''weekly'' \<or> fq = YStr ''biweekly''"
  by (auto simp: lookup_frequency_def supported_frequencies_def split: option.splits)

lemma parse_start_date_Inr:
  "parse_start_date now ff y = Inr sd \<longleftrightarrow>
     (y ''start_date'' = None \<and> sd = now
      \<or> (\<exists>v. y ''start_date'' = Some v \<and> str_limit_ok v \<and> strptime_Ymd (py_str v) = Some sd))"
  by (auto simp: parse_start_date_def split: option.splits)

lemma parse_duration_Inr:
  "parse_duration ff y = Inr dur \<longleftrightarrow>
     (y ''duration'' = None \<and> dur = 60 \<or> (\<exists>v. y ''duration'' = Some v \<and> py_int v = Some dur))"
  by (auto simp: parse_duration_def split: option.splits)

lemma check_day_Inr: "check_day d = Inr u \<longleftrightarrow> DATES d \<noteq> None"
  by (simp add: check_day_def)

declare between_from.simps [simp del]

lemma between_from_stop:
  "step \<le> 0 \<or> before < t \<Longrightarrow> between_from step t after before = []"
  by (subst between_from.simps) simp

lemma between_from_keep:
  "0 < step \<Longrightarrow> t \<le> before \<Longrightarrow> after \<le> t \<Longrightarrow>
     between_from step t after before = t # between_from step (t + step) after before"
  by (subst between_from.simps) simp

lemma between_from_skip:
  "0 < step \<Longrightarrow> t \<le> before \<Longrightarrow> t < after \<Longrightarrow>
     between_from step t after before = between_from step (t + step) after before"
  by (subst between_from.simps) simp

lemma lattice_shift:
  fixes t step x :: int
  shows "(\<exists>k::nat. x = t + int k * step) \<longleftrightarrow> (x = t \<or> (\<exists>k::nat. x = t + step + int k * step))"
proof
  assume "\<exists>k::nat. x = t + int k * step"
  then obtain k :: nat where k: "x = t + int k * step" ..
  show "x = t \<or> (\<exists>k::nat. x = t + step + int k * step)"
  proof (cases k)
    case 0
    with k show ?thesis by simp
  next
    case (Suc j)
    with k have "x = t + step + int j * step" by (simp add: algebra_simps)
    then show ?thesis by blast
  qed
next
  assume "x = t \<or> (\<exists>k::nat. x = t + step + int k * step)"
  then show "\<exists>k::nat. x = t + int k * step"
  proof
    assume "x = t"
    then have "x = t + int 0 * step" by simp
    then show ?thesis by blast
  next
    assume "\<exists>k::nat. x = t + step + int k * step"
    then obtain k :: nat where "x = t + step + int k * step" ..
    then have "x = t + int (Suc k) * step" by (simp add: algebra_simps)
    then show ?thesis by blast
  qed
qed

lemma lattice_ge:
  fixes t step :: int
  assumes "0 < step" "x = t + int k * step"
  shows "t \<le> x"
  using assms by simp

lemma between_from_mem:
  "0 < step \<Longrightarrow>
     x \<in> set (between_from step t after before)
       \<longleftrightarrow> (\<exists>k::nat. x = t + int k * step) \<and> after \<le> x \<and> x \<le> before"
proof (induction step t after before rule: between_from.induct)
  case (1 step t after before)
  show ?case
  proof (cases "before < t")
    case True
    then have e: "between_from step t after before = []" by (simp add: between_from_stop)
    have "\<not> ((\<exists>k::nat. x = t + int k * step) \<and> after \<le> x \<and> x \<le> before)"
      using True lattice_ge [OF "1.prems"] by fastforce
    with e show ?thesis by simp
  next
    case False
    then have tb: "t \<le> before" by simp
    have nc: "\<not> (step \<le> 0 \<or> before < t)" using "1.prems" False by simp
    show ?thesis
    proof (cases "after \<le> t")
      case True
      note ih = "1.IH"(1) [OF nc True "1.prems"]
      have e: "between_from step t after before = t # between_from step (t + step) after before"
        using "1.prems" tb True by (rule between_from_keep)
      show ?thesis
        unfolding e using ih True tb lattice_shift [of x t step] by auto
    next
      case False
      then have lt: "t < after" by simp
      note ih = "1.IH"(2) [OF nc False "1.prems"]
      have e: "between_from step t after before = between_from step (t + step) after before"
        using "1.prems" tb lt by (rule between_from_skip)
      show ?thesis
        unfolding e using ih lt lattice_shift [of x t step] by auto
    qed
  qed
qed

lemma between_from_sorted:
  "0 < step \<Longrightarrow> sorted_wrt (<) (between_from step t after before)"
proof (induction step t after before rule: between_from.induct)
  case (1 step t after before)
  show ?case
  proof (cases "before < t")
    case True
    then show ?thesis by (simp add: between_from_stop)
  next
    case False
    then have tb: "t \<le> before" by simp
    have nc: "\<not> (step \<le> 0 \<or> before < t)" using "1.prems" False by simp
    show ?thesis
    proof (cases "after \<le> t")
      case True
      note ih = "1.IH"(1) [OF nc True "1.prems"]
      have e: "between_from step t after before = t # between_from step (t + step) after before"
        using "1.prems" tb True by (rule between_from_keep)
      have "t < x" if "x \<in> set (between_from step (t + step) after before)" for x
      proof -
        from that obtain k :: nat where "x = t + step + int k * step"
          using between_from_mem [OF "1.prems", of x "t + step" after before] by blast
        then show ?thesis using "1.prems" by (simp add: add_pos_nonneg)
      qed
      with ih show ?thesis unfolding e by simp
    next
      case False
      then have lt: "t < after" by simp
      note ih = "1.IH"(2) [OF nc False "1.prems"]
      have e: "between_from step t after before = between_from step (t + step) after before"
        using "1.prems" tb lt by (rule between_from_skip)
      show ?thesis unfolding e by (rule ih)
    qed
  qed
qed

lemma between_from_length_upper:
  "0 < step \<Longrightarrow>
     between_from step t after before = []
     \<or> int (length (between_from step t after before)) * step \<le> before - max after t + step"
proof (induction step t after before rule: between_from.induct)
  case (1 step t after before)
  show ?case
  proof (cases "before < t")
    case True
    then show ?thesis by (simp add: between_from_stop)
  next
    case False
    then have tb: "t \<le> before" by simp
    have nc: "\<not> (step \<le> 0 \<or> before < t)" using "1.prems" False by simp
    show ?thesis
    proof (cases "after \<le> t")
      case True
      note ih = "1.IH"(1) [OF nc True "1.prems"]
      have e: "between_from step t after before = t # between_from step (t + step) after before"
        using "1.prems" tb True by (rule between_from_keep)
      let ?r = "between_from step (t + step) after before"
      have m: "max after t = t" "max after (t + step) = t + step"
        using True "1.prems" by simp_all
      have "int (length (t # ?r)) * step \<le> before - t + step"
      proof (cases "?r = []")
        case True
        then show ?thesis using tb by simp
      next
        case False
        with ih have "int (length ?r) * step \<le> before - (t + step) + step" unfolding m by simp
        then show ?thesis by (simp add: algebra_simps)
      qed
      then show ?thesis unfolding e m by simp
    next
      case False
      then have lt: "t < after" by simp
      note ih = "1.IH"(2) [OF nc False "1.prems"]
      have e: "between_from step t after before = between_from step (t + step) after before"
        using "1.prems" tb lt by (rule between_from_skip)
      have "before - max after (t + step) \<le> before - max after t" using "1.prems" by simp
      with ih show ?thesis unfolding e by linarith
    qed
  qed
qed

lemma between_from_length_lower:
  "0 < step \<Longrightarrow>
     (if after \<le> t then before - t < int (length (between_from step t after before)) * step
      else before - after < (int (length (between_from step t after before)) + 1) * step)"
proof (induction step t after before rule: between_from.induct)
  case (1 step t after before)
  show ?case
  proof (cases "before < t")
    case True
    then have e: "between_from step t after before = []" by (simp add: between_from_stop)
    show ?thesis unfolding e using True "1.prems" by simp
  next
    case False
    then have tb: "t \<le> before" by simp
    have nc: "\<not> (step \<le> 0 \<or> before < t)" using "1.prems" False by simp
    show ?thesis
    proof (cases "after \<le> t")
      case True
      note ih = "1.IH"(1) [OF nc True "1.prems"]
      have e: "between_from step t after before = t # between_from step (t + step) after before"
        using "1.prems" tb True by (rule between_from_keep)
      let ?r = "between_from step (t + step) after before"
      have "after \<le> t + step" using True "1.prems" by simp
      with ih have "before - (t + step) < int (length ?r) * step" by simp
      then have "before - t < int (length (t # ?r)) * step" by (simp add: algebra_simps)
      then show ?thesis unfolding e using True by simp
    next
      case False
      then have lt: "t < after" by simp
      note ih = "1.IH"(2) [OF nc False "1.prems"]
      have e: "between_from step t after before = between_from step (t + step) after before"
        using "1.prems" tb lt by (rule between_from_skip)
      let ?r = "between_from step (t + step) after before"
      have "before - after < (int (length ?r) + 1) * step"
      proof (cases "after \<le> t + step")
        case True
        with ih have "before - (t + step) < int (length ?r) * step" by simp
        then show ?thesis using lt by (simp add: algebra_simps)
      next
        case False
        with ih show ?thesis by simp
      qed
      then show ?thesis unfolding e using False by simp
    qed
  qed
qed

lemma biweekly_count:
  fixes N :: int
  assumes N: "0 \<le> N"
  shows "int (length (between_from (timedelta_days 14) t ws (ws + timedelta_days (7 * N)))) \<le> N div 2 + 1"
    and "t \<le> ws \<Longrightarrow>
           N div 2 \<le> int (length (between_from (timedelta_days 14) t ws (ws + timedelta_days (7 * N))))"
proof -
  let ?D = usec_per_day
  let ?occ = "between_from (timedelta_days 14) t ws (ws + timedelta_days (7 * N))"
  let ?L = "int (length ?occ)"
  have D: "0 < ?D" by (rule usec_pos)
  have st: "0 < timedelta_days 14" using D by (simp add: timedelta_days_def)
  show "?L \<le> N div 2 + 1"
  proof (cases "?occ = []")
    case True
    then show ?thesis using N by simp
  next
    case False
    with between_from_length_upper [OF st, of t ws "ws + timedelta_days (7 * N)"]
    have "?L * timedelta_days 14 \<le> ws + timedelta_days (7 * N) - max ws t + timedelta_days 14"
      by simp
    then have "?L * (14 * ?D) \<le> 7 * N * ?D + 14 * ?D" by (simp add: timedelta_days_def)
    then have "(14 * ?L) * ?D \<le> (7 * N + 14) * ?D" by (simp add: algebra_simps)
    then have "14 * ?L \<le> 7 * N + 14" using D by (simp only: mult_le_cancel_right; simp)
    then show ?thesis by linarith
  qed
  show "N div 2 \<le> ?L" if tw: "t \<le> ws"
  proof (cases "ws \<le> t")
    case True
    with between_from_length_lower [OF st, of ws t "ws + timedelta_days (7 * N)"]
    have "ws + timedelta_days (7 * N) - t < ?L * timedelta_days 14" by simp
    then have "7 * N * ?D < ?L * (14 * ?D)" using tw True by (simp add: timedelta_days_def)
    then have "(7 * N) * ?D < (14 * ?L) * ?D" by (simp add: algebra_simps)
    then have "7 * N < 14 * ?L" using D by (simp only: mult_less_cancel_right; simp)
    then show ?thesis by linarith
  next
    case False
    with between_from_length_lower [OF st, of ws t "ws + timedelta_days (7 * N)"]
    have "ws + timedelta_days (7 * N) - ws < (?L + 1) * timedelta_days 14" by simp
    then have "7 * N * ?D < (?L + 1) * (14 * ?D)" by (simp add: timedelta_days_def)
    then have "(7 * N) * ?D < (14 * (?L + 1)) * ?D" by (simp add: algebra_simps)
    then have "7 * N < 14 * (?L + 1)" using D by (simp only: mult_less_cancel_right; simp)
    then have "7 * N < 14 * ?L + 14" by (simp add: algebra_simps)
    then show ?thesis by linarith
  qed
qed

lemma MeetingInstance_init_Inr:
  assumes "MeetingInstance_init proj t dur = Inr mi"
  shows "MeetingInstance.project mi = proj \<and> start mi = t
         \<and> instance_end mi = t + dur * usec_per_minute"
proof -
  from assms obtain td en where td: "timedelta_minutes dur = Inr td"
    and en: "dt_add t td = Inr en" and mi: "mi = MeetingInstance.make proj t en"
    by (auto simp: MeetingInstance_init_def bind_Inr_iff)
  from timedelta_minutes_Inr [OF td] en have "en = t + dur * usec_per_minute"
    by (simp add: dt_add_Inr)
  with mi show ?thesis by (simp add: MeetingInstance.make_def)
qed

lemma append_instance_all:
  assumes "\<forall>c xs x. (c, xs) \<in> set acc \<longrightarrow> x \<in> set xs \<longrightarrow> P c x" and "P k v"
  shows "\<forall>c xs x. (c, xs) \<in> set (append_instance k v acc) \<longrightarrow> x \<in> set xs \<longrightarrow> P c x"
  using assms
proof (induction acc)
  case Nil
  then show ?case by simp
next
  case (Cons p acc)
  obtain k' vs where p: "p = (k', vs)" by (cases p)
  from Cons.prems have tl: "\<forall>c xs x. (c, xs) \<in> set acc \<longrightarrow> x \<in> set xs \<longrightarrow> P c x"
    and hd: "\<forall>x \<in> set vs. P k' x" unfolding p by auto
  show ?case
  proof (cases "k = k'")
    case True
    with hd tl Cons.prems(2) show ?thesis unfolding p by auto
  next
    case False
    with hd Cons.IH [OF tl Cons.prems(2)] show ?thesis unfolding p by auto
  qed
qed

lemma add_occurrences_all:
  assumes "add_occurrences proj s ts acc = Inr acc'"
    and "\<forall>c xs x. (c, xs) \<in> set acc \<longrightarrow> x \<in> set xs \<longrightarrow> P c x"
    and "\<forall>t mi. t \<in> set ts \<longrightarrow> MeetingInstance_init proj t (duration s) = Inr mi \<longrightarrow> P (irc s) mi"
  shows "\<forall>c xs x. (c, xs) \<in> set acc' \<longrightarrow> x \<in> set xs \<longrightarrow> P c x"
  using assms
proof (induction ts arbitrary: acc)
  case Nil
  then show ?case by simp
next
  case (Cons t ts)
  from Cons.prems(1) obtain mi where mi: "MeetingInstance_init proj t (duration s) = Inr mi"
    and r: "add_occurrences proj s ts (append_instance (irc s) mi acc) = Inr acc'"
    by (auto simp: bind_Inr_iff)
  from Cons.prems(3) mi have "P (irc s) mi" by simp
  from append_instance_all [where P = P, OF Cons.prems(2) this]
  have a: "\<forall>c xs x. (c, xs) \<in> set (append_instance (irc s) mi acc) \<longrightarrow> x \<in> set xs \<longrightarrow> P c x" .
  from Cons.prems(3)
  have b: "\<forall>t mi. t \<in> set ts \<longrightarrow> MeetingInstance_init proj t (duration s) = Inr mi \<longrightarrow> P (irc s) mi"
    by simp
  from Cons.IH [OF r a b] show ?case .
qed

lemma expand_schedules_all:
  assumes "expand_schedules ws we proj ss acc = Inr acc'"
    and "\<forall>c xs x. (c, xs) \<in> set acc \<longrightarrow> x \<in> set xs \<longrightarrow> P c x"
    and "\<forall>s occ t mi. s \<in> set ss \<longrightarrow> occurrences ws we s = Inr occ \<longrightarrow> t \<in> set occ \<longrightarrow>
           MeetingInstance_init proj t (duration s) = Inr mi \<longrightarrow> P (irc s) mi"
  shows "\<forall>c xs x. (c, xs) \<in> set acc' \<longrightarrow> x \<in> set xs \<longrightarrow> P c x"
  using assms
proof (induction ss arbitrary: acc)
  case Nil
  then show ?case by simp
next
  case (Cons s ss)
  from Cons.prems(1) obtain occ acc1 where occ: "occurrences ws we s = Inr occ"
    and a1: "add_occurrences proj s occ acc = Inr acc1"
    and r: "expand_schedules ws we proj ss acc1 = Inr acc'"
    by (auto simp: bind_Inr_iff)
  from Cons.prems(3) occ
  have "\<forall>t mi. t \<in> set occ \<longrightarrow> MeetingInstance_init proj t (duration s) = Inr mi \<longrightarrow> P (irc s) mi"
    by simp
  from add_occurrences_all [where P = P, OF a1 Cons.prems(2) this]
  have a: "\<forall>c xs x. (c, xs) \<in> set acc1 \<longrightarrow> x \<in> set xs \<longrightarrow> P c x" .
  from Cons.prems(3)
  have b: "\<forall>s occ t mi. s \<in> set ss \<longrightarrow> occurrences ws we s = Inr occ \<longrightarrow> t \<in> set occ \<longrightarrow>
           MeetingInstance_init proj t (duration s) = Inr mi \<longrightarrow> P (irc s) mi"
    by simp
  from Cons.IH [OF r a b] show ?case .
qed

lemma expand_meetings_all:
  assumes "expand_meetings ws we ms acc = Inr acc'"
    and "\<forall>c xs x. (c, xs) \<in> set acc \<longrightarrow> x \<in> set xs \<longrightarrow> P c x"
    and "\<forall>m s occ t mi. m \<in> set ms \<longrightarrow> s \<in> set (schedules m) \<longrightarrow>
           occurrences ws we s = Inr occ \<longrightarrow> t \<in> set occ \<longrightarrow>
           MeetingInstance_init (Meeting.project m) t (duration s) = Inr mi \<longrightarrow> P (irc s) mi"
  shows "\<forall>c xs x. (c, xs) \<in> set acc' \<longrightarrow> x \<in> set xs \<longrightarrow> P c x"
  using assms
proof (induction ms arbitrary: acc)
  case Nil
  then show ?case by simp
next
  case (Cons m ms)
  from Cons.prems(1) obtain acc1 where
    a1: "expand_schedules ws we (Meeting.project m) (schedules m) acc = Inr acc1"
    and r: "expand_meetings ws we ms acc1 = Inr acc'"
    by (auto simp: bind_Inr_iff)
  from Cons.prems(3)
  have "\<forall>s occ t mi. s \<in> set (schedules m) \<longrightarrow> occurrences ws we s = Inr occ \<longrightarrow> t \<in> set occ \<longrightarrow>
           MeetingInstance_init (Meeting.project m) t (duration s) = Inr mi \<longrightarrow> P (irc s) mi"
    by simp
  from expand_schedules_all [where P = P, OF a1 Cons.prems(2) this]
  have a: "\<forall>c xs x. (c, xs) \<in> set acc1 \<longrightarrow> x \<in> set xs \<longrightarrow> P c x" .
  from Cons.prems(3)
  have b: "\<forall>m s occ t mi. m \<in> set ms \<longrightarrow> s \<in> set (schedules m) \<longrightarrow>
           occurrences ws we s = Inr occ \<longrightarrow> t \<in> set occ \<longrightarrow>
           MeetingInstance_init (Meeting.project m) t (duration s) = Inr mi \<longrightarrow> P (irc s) mi"
    by simp
  from Cons.IH [OF r a b] show ?case .
qed
















lemma week_interval_Inl:
  "week_interval d tm dur = Inl e \<Longrightarrow> DATES d \<noteq> None \<Longrightarrow> e = OverflowError"
  by (auto simp: week_interval_def Let_def timedelta_minutes_def dt_add_def
      split: option.splits sum.splits if_splits)

lemma week_interval_value:
  assumes d: "DATES d = Some date"
    and v: "dt_valid (combine date (dt_time tm) + dur * usec_per_minute)"
    and c: "\<not> (d = ''Sunday''
              \<and> weekday (combine date (dt_time tm) + dur * usec_per_minute) = 0
              \<and> \<not> dt_valid (combine date (dt_time tm) + dur * usec_per_minute - ONE_WEEK))"
  shows "week_interval d tm dur =
    Inr (if d = ''Sunday'' \<and> weekday (combine date (dt_time tm) + dur * usec_per_minute) = 0
         then (combine date (dt_time tm) - ONE_WEEK,
               combine date (dt_time tm) + dur * usec_per_minute - ONE_WEEK)
         else (combine date (dt_time tm), combine date (dt_time tm) + dur * usec_per_minute))"
proof -
  let ?ms = "combine date (dt_time tm)"
  let ?me = "?ms + dur * usec_per_minute"
  note dr = DATES_range [OF d]
  from timedelta_in_range [OF v] dr dt_time_range [of tm]
  have td: "timedelta_minutes dur = Inr (dur * usec_per_minute)"
    by (simp add: timedelta_minutes_def)
  have me: "dt_add ?ms (dur * usec_per_minute) = Inr ?me" using v by (simp add: dt_add_def)
  have "?ms - ONE_WEEK = combine (date - 7) (dt_time tm)"
    by (simp add: combine_def ONE_WEEK_def timedelta_days_def algebra_simps)
  then have "toordinal (?ms - ONE_WEEK) = date - 7" by (simp add: toordinal_combine)
  then have "dt_valid (?ms - ONE_WEEK)"
    using dr by (simp add: dt_valid_iff MINORDINAL_def MAXORDINAL_def)
  then have msw: "dt_add ?ms (- ONE_WEEK) = Inr (?ms - ONE_WEEK)" by (simp add: dt_add_def)
  show ?thesis
  proof (cases "d = ''Sunday'' \<and> weekday ?me = 0")
    case True
    with c have "dt_valid (?me - ONE_WEEK)" by blast
    then have "dt_add ?me (- ONE_WEEK) = Inr (?me - ONE_WEEK)" by (simp add: dt_add_def)
    with True d td me msw show ?thesis
      by (simp add: week_interval_def Let_def strftime_a_Mon)
  next
    case False
    with d td me show ?thesis
      by (auto simp: week_interval_def Let_def strftime_a_Mon)
  qed
qed

lemma week_interval_overflow:
  assumes d: "DATES d = Some date"
    and n: "\<not> dt_valid (combine date (dt_time tm) + dur * usec_per_minute)
            \<or> (d = ''Sunday''
              \<and> weekday (combine date (dt_time tm) + dur * usec_per_minute) = 0
              \<and> \<not> dt_valid (combine date (dt_time tm) + dur * usec_per_minute - ONE_WEEK))"
  shows "week_interval d tm dur = Inl OverflowError"
proof (cases "week_interval d tm dur")
  case (Inl e)
  with week_interval_Inl [OF Inl] d show ?thesis by simp
next
  case (Inr w)
  then have "\<exists>w. week_interval d tm dur = Inr w" ..
  then obtain date' where "DATES d = Some date'"
        "dt_valid (combine date' (dt_time tm) + dur * usec_per_minute)"
        "\<not> (d = ''Sunday''
              \<and> weekday (combine date' (dt_time tm) + dur * usec_per_minute) = 0
              \<and> \<not> dt_valid (combine date' (dt_time tm) + dur * usec_per_minute - ONE_WEEK))"
    unfolding week_interval_Inr_iff by blast
  with d n show ?thesis by auto
qed

lemma Schedule_init_Inr_iff:
  "(\<exists>s. Schedule_init now m y = Inr s) \<longleftrightarrow>
      (\<exists>ts tm ds date ch fq sd dur.
          y ''time'' = Some (YStr ts) \<and> strptime_HM ts = Some tm
        \<and> y ''day'' = Some (YStr ds)
        \<and> DATES (capitalize (lower ds)) = Some date
        \<and> y ''irc'' = Some ch
        \<and> y ''frequency'' = Some fq \<and> (fq = YStr ''weekly'' \<or> fq = YStr ''biweekly'')
        \<and> (y ''start_date'' = None \<and> sd = now
            \<or> (\<exists>v. y ''start_date'' = Some v \<and> str_limit_ok v \<and> strptime_Ymd (py_str v) = Some sd))
        \<and> (y ''duration'' = None \<and> dur = 60
            \<or> (\<exists>v. y ''duration'' = Some v \<and> py_int v = Some dur))
        \<and> dt_valid (combine date (dt_time tm) + dur * usec_per_minute)
        \<and> \<not> (capitalize (lower ds) = ''Sunday'' \<and> weekday (combine date (dt_time tm) + dur * usec_per_minute) = 0
              \<and> \<not> dt_valid (combine date (dt_time tm) + dur * usec_per_minute - ONE_WEEK)))"
  (is "?L \<longleftrightarrow> ?R")
proof
  assume ?L
  then obtain s where s: "Schedule_init now m y = Inr s" ..
  from s obtain tv tm dv d ch fq iv sd dur w where
    st: "getitem y ''time'' = Inr tv" "parse_time tv = Inr tm"
      "getitem y ''day'' = Inr dv" "sanitize_day dv = Inr d"
      "getitem y ''irc'' = Inr ch" "getitem y ''frequency'' = Inr fq"
      "lookup_frequency fq = Inr iv"
      "parse_start_date now (Meeting.filefrom m) y = Inr sd"
      "parse_duration (Meeting.filefrom m) y = Inr dur"
      "check_day d = Inr ()" "week_interval d tm dur = Inr w"
    by (rule Schedule_init_InrD)
  from st(1,2) obtain ts where 1: "y ''time'' = Some (YStr ts)" "strptime_HM ts = Some tm"
    by (auto simp: getitem_Inr parse_time_Inr)
  from st(3,4) obtain ds where 2: "y ''day'' = Some (YStr ds)" "d = capitalize (lower ds)"
    by (auto simp: getitem_Inr sanitize_day_Inr)
  from st(5) have 3: "y ''irc'' = Some ch" by (simp add: getitem_Inr)
  from st(6,7) have 4: "y ''frequency'' = Some fq" "fq = YStr ''weekly'' \<or> fq = YStr ''biweekly''"
    using lookup_frequency_Inr_iff [of fq] by (auto simp: getitem_Inr)
  from st(8) have 5: "y ''start_date'' = None \<and> sd = now
          \<or> (\<exists>v. y ''start_date'' = Some v \<and> str_limit_ok v \<and> strptime_Ymd (py_str v) = Some sd)"
    by (simp add: parse_start_date_Inr)
  from st(9) have 6: "y ''duration'' = None \<and> dur = 60
          \<or> (\<exists>v. y ''duration'' = Some v \<and> py_int v = Some dur)"
    by (simp add: parse_duration_Inr)
  from st(11) have "\<exists>w. week_interval d tm dur = Inr w" ..
  then obtain date where 7: "DATES d = Some date"
      "dt_valid (combine date (dt_time tm) + dur * usec_per_minute)"
      "\<not> (d = ''Sunday''
            \<and> weekday (combine date (dt_time tm) + dur * usec_per_minute) = 0
            \<and> \<not> dt_valid (combine date (dt_time tm) + dur * usec_per_minute - ONE_WEEK))"
    unfolding week_interval_Inr_iff by blast
  show ?R
    apply (rule exI [of _ ts], rule exI [of _ tm], rule exI [of _ ds], rule exI [of _ date])
    apply (rule exI [of _ ch], rule exI [of _ fq], rule exI [of _ sd], rule exI [of _ dur])
    using 1 2(1) 3 4 5 6 7 unfolding 2(2) by (intro conjI) assumption+
next
  assume ?R
  then obtain ts tm ds date ch fq sd dur where
    1: "y ''time'' = Some (YStr ts)" "strptime_HM ts = Some tm"
    and 2: "y ''day'' = Some (YStr ds)" "DATES (capitalize (lower ds)) = Some date"
    and 3: "y ''irc'' = Some ch"
    and 4: "y ''frequency'' = Some fq" "fq = YStr ''weekly'' \<or> fq = YStr ''biweekly''"
    and 5: "y ''start_date'' = None \<and> sd = now
          \<or> (\<exists>v. y ''start_date'' = Some v \<and> str_limit_ok v \<and> strptime_Ymd (py_str v) = Some sd)"
    and 6: "y ''duration'' = None \<and> dur = 60
          \<or> (\<exists>v. y ''duration'' = Some v \<and> py_int v = Some dur)"
    and 7: "dt_valid (combine date (dt_time tm) + dur * usec_per_minute)"
      "\<not> (capitalize (lower ds) = ''Sunday''
            \<and> weekday (combine date (dt_time tm) + dur * usec_per_minute) = 0
            \<and> \<not> dt_valid (combine date (dt_time tm) + dur * usec_per_minute - ONE_WEEK))"
    by (elim exE conjE)
  define d where "d = capitalize (lower ds)"
  have a: "getitem y ''time'' = Inr (YStr ts)" "parse_time (YStr ts) = Inr tm"
    using 1 by (simp_all add: getitem_Inr)
  have b: "getitem y ''day'' = Inr (YStr ds)" "sanitize_day (YStr ds) = Inr d"
    using 2 by (simp_all add: getitem_Inr d_def)
  have c: "getitem y ''irc'' = Inr ch" using 3 by (simp add: getitem_Inr)
  have e: "getitem y ''frequency'' = Inr fq" using 4 by (simp add: getitem_Inr)
  from 4(2) obtain iv where f: "lookup_frequency fq = Inr iv"
    using lookup_frequency_Inr_iff [of fq] by blast
  from 5 have g: "parse_start_date now (Meeting.filefrom m) y = Inr sd"
    by (simp add: parse_start_date_Inr)
  from 6 have h: "parse_duration (Meeting.filefrom m) y = Inr dur"
    by (simp add: parse_duration_Inr)
  have i: "check_day d = Inr ()" using 2(2) by (simp add: check_day_Inr d_def)
  have "\<exists>w. week_interval d tm dur = Inr w"
    unfolding week_interval_Inr_iff using 2(2) 7 unfolding d_def by blast
  then obtain w where j: "week_interval d tm dur = Inr w" ..
  show ?L
    unfolding Schedule_init_def
    by (simp add: a b c e f g h i j del: parse_time.simps sanitize_day.simps)
qed

lemma start_date_stage:
  "y ''start_date'' = None \<and> sd = now
     \<or> (\<exists>v. y ''start_date'' = Some v \<and> str_limit_ok v \<and> strptime_Ymd (py_str v) = Some sd)
   \<Longrightarrow> parse_start_date now ff y = Inr sd"
  by (simp add: parse_start_date_Inr)

lemma duration_stage:
  "y ''duration'' = None \<and> dur = 60 \<or> (\<exists>v. y ''duration'' = Some v \<and> py_int v = Some dur)
   \<Longrightarrow> parse_duration ff y = Inr dur"
  by (simp add: parse_duration_Inr)

section \<open>The same-week conflict test\<close>

text \<open>
  C4. \<open>a.conflicts(b)\<close> is true exactly when the two schedules have the same channel,
  their canonical single-week intervals overlap under the half-open rule
  (\<open>a.meeting_start < b.meeting_end\<close> and \<open>b.meeting_start < a.meeting_end\<close>) and the
  pair of their frequency names is not the alternating pair biweekly-odd, biweekly-even.
  Touching endpoints do not count: a schedule that starts exactly when \<open>a\<close> ends does
  not conflict with \<open>a\<close>, in either argument order.
\<close>

theorem conflicts_iff:
  "(conflicts a b \<longleftrightarrow>
      (irc a = irc b
       \<and> meeting_start a < meeting_end b \<and> meeting_start b < meeting_end a
       \<and> {freq a, freq b} \<noteq> {YStr ''biweekly-odd'', YStr ''biweekly-even''}))
   \<and> \<not> conflicts a (b\<lparr>meeting_start := meeting_end a\<rparr>)
   \<and> \<not> conflicts (b\<lparr>meeting_start := meeting_end a\<rparr>) a"
  by (simp add: conflicts_def alternating_def)

text \<open>
  C8. The overlap tests are symmetric: \<open>a.conflicts(b)\<close> equals \<open>b.conflicts(a)\<close> for
  any two schedules, and the interval test the detector applies to two meeting
  instances gives the same answer in either argument order.
\<close>

theorem conflicts_symmetric:
  "conflicts a b = conflicts b a \<and> overlap x y = overlap y x"
proof
  have "{freq a, freq b} = {freq b, freq a}" by (rule insert_commute)
  then show "conflicts a b = conflicts b a"
    unfolding conflicts_def by (simp add: conj_commute eq_commute)
  show "overlap x y = overlap y x"
    unfolding overlap_def by (simp add: conj_commute)
qed

section \<open>The next occurrence\<close>


section \<open>The alternating exemption\<close>

text \<open>
  C7. No schedule with frequency biweekly-odd or biweekly-even can be constructed: the
  frequency of a constructed schedule is the value of the \<open>frequency\<close> key, and it is
  \<open>weekly\<close> or \<open>biweekly\<close> (the only keys of \<open>supported_frequencies\<close>; the recurrence
  table of \<^verbatim>\<open>recurrence.py\<close> has no parity variants either). Hence for two constructed
  schedules the pair of frequencies is never the alternating pair, and \<open>conflicts\<close> is
  channel equality together with the overlap of the two intervals.
\<close>

theorem alternating_exemption_dead:
  assumes "Schedule_init now m y = Inr a" and "Schedule_init now' m' y' = Inr b"
  shows "y ''frequency'' = Some (freq a) \<and> freq a \<in> {YStr ''weekly'', YStr ''biweekly''}
         \<and> freq a \<notin> alternating
         \<and> supported_recurrences ''biweekly-odd'' = None
         \<and> supported_recurrences ''biweekly-even'' = None
         \<and> {freq a, freq b} \<noteq> alternating
         \<and> (conflicts a b \<longleftrightarrow>
              (irc a = irc b \<and> meeting_start a < meeting_end b \<and> meeting_start b < meeting_end a))"
proof -
  have fa: "freq a = YStr ''weekly'' \<or> freq a = YStr ''biweekly''"
    using constructed_freq(2) [OF assms(1)] by blast
  have fb: "freq b = YStr ''weekly'' \<or> freq b = YStr ''biweekly''"
    using constructed_freq(2) [OF assms(2)] by blast
  have na: "freq a \<notin> alternating" using fa by (auto simp: alternating_def)
  then have ne: "{freq a, freq b} \<noteq> alternating" by auto
  have sr: "supported_recurrences ''biweekly-odd'' = None
            \<and> supported_recurrences ''biweekly-even'' = None"
    by (simp add: supported_recurrences_def)
  show ?thesis
    using constructed_freq(1) [OF assms(1)] fa na ne sr by (simp add: conflicts_def)
qed

theorem alternating_exemption_dead_witness:
  "Schedule_init 0 example_meeting yaml_sunday = Inr sched_sunday
   \<and> Schedule_init 0 example_meeting yaml_monday = Inr sched_monday
   \<and> freq sched_sunday \<notin> alternating
   \<and> {freq sched_sunday, freq sched_monday} \<noteq> alternating
   \<and> (conflicts sched_sunday sched_monday \<longleftrightarrow>
        (irc sched_sunday = irc sched_monday
         \<and> meeting_start sched_sunday < meeting_end sched_monday
         \<and> meeting_start sched_monday < meeting_end sched_sunday))"
proof -
  have a: "Schedule_init 0 example_meeting yaml_sunday = Inr sched_sunday" by code_simp
  have b: "Schedule_init 0 example_meeting yaml_monday = Inr sched_monday" by code_simp
  show ?thesis using alternating_exemption_dead [OF a b] a b by simp
qed

section \<open>The week wrap of a Sunday slot\<close>



section \<open>The next occurrence and the anchor\<close>

text \<open>
  C2 (amended). For a constructed schedule whose anchor date is not later than
  9999-12-25 (the clock giving a valid datetime), \<open>next_occurrence()\<close> returns an instant
  whose weekday is the schedule's day, at the schedule's time of day; its calendar date
  is not before the anchor's date and at most 6 days after it, and it is the anchor's
  date exactly when the anchor's weekday is already the schedule's day. When the record
  gives \<open>start_date\<close> (a midnight instant) the returned instant itself is not before the
  anchor and less than 7 days after it.
\<close>

theorem next_occurrence_weekday:
  assumes init: "Schedule_init now m y = Inr s"
    and clock: "dt_valid now"
    and hi: "toordinal (start_date s) + 6 \<le> MAXORDINAL"
  shows "\<exists>t. next_occurrence s = Inr t
           \<and> WEEKDAYS (day s) = Some (weekday t)
           \<and> toordinal (start_date s) \<le> toordinal t
           \<and> toordinal t \<le> toordinal (start_date s) + 6
           \<and> dt_time t = dt_time (time s)
           \<and> dt_hour t = dt_hour (time s) \<and> dt_minute t = dt_minute (time s)
           \<and> (toordinal t = toordinal (start_date s)
                \<longleftrightarrow> WEEKDAYS (day s) = Some (weekday (start_date s)))
           \<and> (y ''start_date'' \<noteq> None
                \<longrightarrow> start_date s \<le> t \<and> t < start_date s + timedelta_days 7)"
proof -
  let ?sd = "start_date s"
  from constructed_time [OF init] obtain h mi where
    tm: "time s = mk_datetime 693596 h mi" "0 \<le> h" "h \<le> 23" "0 \<le> mi" "mi \<le> 59" by blast
  from constructed_day [OF init] obtain wd where
    wd: "WEEKDAYS (day s) = Some wd" "0 \<le> wd" "wd \<le> 6" by blast
  have given: "dt_time ?sd = 0 \<and> MINORDINAL \<le> toordinal ?sd" if "y ''start_date'' \<noteq> None"
    using constructed_start_date [OF init] that strptime_Ymd_props by auto
  have lo: "MINORDINAL \<le> toordinal ?sd"
  proof (cases "y ''start_date''")
    case None
    then have "?sd = now" using constructed_start_date [OF init] by auto
    then show ?thesis using clock by (simp add: dt_valid_iff)
  next
    case (Some v)
    then show ?thesis using given by simp
  qed
  from next_occurrence_spec [OF wd tm lo hi] obtain t da where
    t: "next_occurrence s = Inr t" "t = mk_datetime (toordinal ?sd + da) h mi"
      "0 \<le> da" "da \<le> 6" "da = 0 \<longleftrightarrow> wd = weekday ?sd" "weekday t = wd"
      "toordinal t = toordinal ?sd + da" "dt_time t = dt_time (time s)"
      "dt_hour t = h" "dt_minute t = mi"
    by blast
  have hm: "dt_hour (time s) = h" "dt_minute (time s) = mi"
    unfolding tm(1) using mk_datetime_fields(3,4) [OF tm(2-5)] by simp_all
  have inst: "?sd \<le> t \<and> t < ?sd + timedelta_days 7" if g: "y ''start_date'' \<noteq> None"
  proof -
    from given [OF g] have "?sd mod usec_per_day = 0" by (simp add: dt_time_def)
    then have sd: "?sd = toordinal ?sd * usec_per_day"
      unfolding toordinal_def by (simp add: mod_eq_0_iff_dvd)
    note r = time_of_day_range(1,2) [OF tm(2-5)]
    have tv: "t = toordinal ?sd * usec_per_day + da * usec_per_day
                  + (h * usec_per_hour + mi * usec_per_minute)"
      unfolding t(2) mk_datetime_def by (simp add: algebra_simps)
    have "0 \<le> da * usec_per_day" using t(3) usec_pos(1) by simp
    moreover have "da * usec_per_day \<le> 6 * usec_per_day"
      using t(4) usec_pos(1) by (simp add: mult_right_mono)
    ultimately show ?thesis
      using r sd tv unfolding timedelta_days_def by linarith
  qed
  show ?thesis
    using t(1) t(3,4,5,6,7,8,9,10) wd(1) hm inst by auto
qed

theorem next_occurrence_weekday_witness:
  "Schedule_init 63574297200000000 example_meeting yaml_sunday = Inr sched_sunday
   \<and> dt_valid 63574297200000000
   \<and> toordinal (start_date sched_sunday) + 6 \<le> MAXORDINAL
   \<and> next_occurrence sched_sunday = Inr 63574241400000000
   \<and> WEEKDAYS (day sched_sunday) = Some (weekday 63574241400000000)
   \<and> toordinal (start_date sched_sunday) \<le> toordinal 63574241400000000
   \<and> toordinal 63574241400000000 \<le> toordinal (start_date sched_sunday) + 6
   \<and> dt_time 63574241400000000 = dt_time (time sched_sunday)
   \<and> start_date sched_sunday \<le> 63574241400000000"
proof -
  have a: "Schedule_init 63574297200000000 example_meeting yaml_sunday = Inr sched_sunday"
    by code_simp
  have b: "dt_valid 63574297200000000" by code_simp
  have c: "toordinal (start_date sched_sunday) + 6 \<le> MAXORDINAL" by code_simp
  have d: "next_occurrence sched_sunday = Inr 63574241400000000" by code_simp
  have e: "yaml_sunday ''start_date'' \<noteq> None" by (simp add: yaml_sunday_def)
  show ?thesis
    using next_occurrence_weekday [OF a b c] a b c d e by auto
qed

text \<open>
  C2 as stated fails. With no \<open>start_date\<close> the anchor is the current time, here Monday
  2015-08-03 15:00; the next occurrence of a Monday 10:00 slot is then 2015-08-03 10:00,
  before the anchor. And for the anchor 9999-12-31 with day Saturday the date arithmetic
  leaves the calendar: no instant is returned.
\<close>

theorem next_occurrence_before_anchor:
  "Schedule_init 63574297200000000 example_meeting yaml_default = Inr sched_default
   \<and> start_date sched_default = 63574297200000000
   \<and> next_occurrence sched_default = Inr 63574279200000000
   \<and> (63574279200000000 :: int) < start_date sched_default
   \<and> Schedule_init 63574297200000000 example_meeting yaml_9999 = Inr sched_9999
   \<and> next_occurrence sched_9999 = Inl OverflowError"
proof (intro conjI)
  show "Schedule_init 63574297200000000 example_meeting yaml_default = Inr sched_default"
    by code_simp
  show "start_date sched_default = 63574297200000000" by (simp add: sched_default_def)
  show "next_occurrence sched_default = Inr 63574279200000000" by code_simp
  show "(63574279200000000 :: int) < start_date sched_default" by (simp add: sched_default_def)
  show "Schedule_init 63574297200000000 example_meeting yaml_9999 = Inr sched_9999"
    by code_simp
  show "next_occurrence sched_9999 = Inl OverflowError" by code_simp
qed

section \<open>Construction failures\<close>

text \<open>
  C5 (amended). For a record whose values are integers or strings of characters up to
  U+00FF, construction of a schedule raises an exception in exactly the following cases,
  and the first case that applies, in this order, decides the exception:
  \<open>time\<close> is absent (\<^verbatim>\<open>KeyError\<close> of \<open>time\<close>);
  \<open>time\<close> is an integer (\<^verbatim>\<open>TypeError\<close>);
  \<open>time\<close> is a string that \<^verbatim>\<open>strptime\<close> rejects for \<^verbatim>\<open>%H%M\<close> (the \<^verbatim>\<open>ValueError\<close> of \<^verbatim>\<open>strptime\<close>);
  \<open>day\<close> is absent (\<^verbatim>\<open>KeyError\<close> of \<open>day\<close>);
  \<open>day\<close> is an integer (\<^verbatim>\<open>AttributeError\<close>);
  \<open>irc\<close> is absent (\<^verbatim>\<open>KeyError\<close> of \<open>irc\<close>);
  \<open>frequency\<close> is absent (\<^verbatim>\<open>KeyError\<close> of \<open>frequency\<close>);
  \<open>frequency\<close> is neither \<open>weekly\<close> nor \<open>biweekly\<close> (\<^verbatim>\<open>KeyError\<close> of the value given);
  \<open>start_date\<close> is an integer of more than 4300 digits (the \<^verbatim>\<open>ValueError\<close> of the digit
  limit);
  \<open>start_date\<close> is present and \<^verbatim>\<open>str\<close> of it does not parse as a \<^verbatim>\<open>%Y%m%d\<close> date (\<^verbatim>\<open>ValueError\<close>
  naming \<open>start_date\<close>, the value and the file);
  \<open>duration\<close> is present and \<^verbatim>\<open>int\<close> rejects it (\<^verbatim>\<open>ValueError\<close> naming \<open>duration\<close>, the value
  and the file);
  \<open>day\<close> does not name a weekday after \<^verbatim>\<open>lower().capitalize()\<close> (\<^verbatim>\<open>ValueError\<close> whose message
  keeps the placeholder \<^verbatim>\<open>%s\<close> and does not name the day);
  the end of the slot in the canonical week, or that end a week earlier when the week
  wrap applies, is not a date that \<^verbatim>\<open>datetime\<close> supports (\<^verbatim>\<open>OverflowError\<close>).
  In every other case construction succeeds and the schedule has the fields given
  below; in particular every integer \<open>duration\<close> is accepted, also zero or a negative
  one. The first conjunct states the cases of success, the second the schedule that is
  built, the others one exception each, in the order above.
\<close>

theorem Schedule_init_succeeds_iff:
  "((\<exists>s. Schedule_init now m y = Inr s) \<longleftrightarrow>
      (\<exists>ts tm ds date ch fq sd dur.
          y ''time'' = Some (YStr ts) \<and> strptime_HM ts = Some tm
        \<and> y ''day'' = Some (YStr ds)
        \<and> DATES (capitalize (lower ds)) = Some date
        \<and> y ''irc'' = Some ch
        \<and> y ''frequency'' = Some fq \<and> (fq = YStr ''weekly'' \<or> fq = YStr ''biweekly'')
        \<and> (y ''start_date'' = None \<and> sd = now
            \<or> (\<exists>v. y ''start_date'' = Some v \<and> str_limit_ok v \<and> strptime_Ymd (py_str v) = Some sd))
        \<and> (y ''duration'' = None \<and> dur = 60
            \<or> (\<exists>v. y ''duration'' = Some v \<and> py_int v = Some dur))
        \<and> dt_valid (combine date (dt_time tm) + dur * usec_per_minute)
        \<and> \<not> (capitalize (lower ds) = ''Sunday'' \<and> weekday (combine date (dt_time tm) + dur * usec_per_minute) = 0
              \<and> \<not> dt_valid (combine date (dt_time tm) + dur * usec_per_minute - ONE_WEEK))))
   \<and> (y ''time'' = Some (YStr ts) \<and> strptime_HM ts = Some tm
        \<and> y ''day'' = Some (YStr ds)
        \<and> DATES (capitalize (lower ds)) = Some date
        \<and> y ''irc'' = Some ch
        \<and> y ''frequency'' = Some fq \<and> (fq = YStr ''weekly'' \<or> fq = YStr ''biweekly'')
        \<and> (y ''start_date'' = None \<and> sd = now
            \<or> (\<exists>v. y ''start_date'' = Some v \<and> str_limit_ok v \<and> strptime_Ymd (py_str v) = Some sd))
        \<and> (y ''duration'' = None \<and> dur = 60
            \<or> (\<exists>v. y ''duration'' = Some v \<and> py_int v = Some dur))
        \<and> dt_valid (combine date (dt_time tm) + dur * usec_per_minute)
        \<and> \<not> (capitalize (lower ds) = ''Sunday'' \<and> weekday (combine date (dt_time tm) + dur * usec_per_minute) = 0
              \<and> \<not> dt_valid (combine date (dt_time tm) + dur * usec_per_minute - ONE_WEEK))
       \<longrightarrow> Schedule_init now m y = Inr
            \<lparr> Schedule.project = Meeting.project m, filefrom = Meeting.filefrom m,
              utc = YStr ts, time = tm, day = capitalize (lower ds), irc = ch, freq = fq,
              freq_interval = (if fq = YStr ''weekly'' then 1 else 2),
              start_date = sd, duration = dur,
              meeting_start = (if capitalize (lower ds) = ''Sunday'' \<and> weekday (combine date (dt_time tm) + dur * usec_per_minute) = 0
                               then combine date (dt_time tm) - ONE_WEEK
                               else combine date (dt_time tm)),
              meeting_end = (if capitalize (lower ds) = ''Sunday'' \<and> weekday (combine date (dt_time tm) + dur * usec_per_minute) = 0
                             then combine date (dt_time tm) + dur * usec_per_minute - ONE_WEEK
                             else combine date (dt_time tm) + dur * usec_per_minute) \<rparr>)
   \<and> (y ''time'' = None
       \<longrightarrow> Schedule_init now m y = Inl (KeyError (YStr ''time'')))
   \<and> (y ''time'' = Some (YInt i)
       \<longrightarrow> Schedule_init now m y = Inl (TypeError))
   \<and> (y ''time'' = Some (YStr ts) \<and> strptime_HM ts = None
       \<longrightarrow> Schedule_init now m y = Inl (StrptimeError))
   \<and> (y ''time'' = Some (YStr ts) \<and> strptime_HM ts = Some tm
        \<and> y ''day'' = None
       \<longrightarrow> Schedule_init now m y = Inl (KeyError (YStr ''day'')))
   \<and> (y ''time'' = Some (YStr ts) \<and> strptime_HM ts = Some tm
        \<and> y ''day'' = Some (YInt i)
       \<longrightarrow> Schedule_init now m y = Inl (AttributeError))
   \<and> (y ''time'' = Some (YStr ts) \<and> strptime_HM ts = Some tm
        \<and> y ''day'' = Some (YStr ds)
        \<and> y ''irc'' = None
       \<longrightarrow> Schedule_init now m y = Inl (KeyError (YStr ''irc'')))
   \<and> (y ''time'' = Some (YStr ts) \<and> strptime_HM ts = Some tm
        \<and> y ''day'' = Some (YStr ds)
        \<and> y ''irc'' = Some ch
        \<and> y ''frequency'' = None
       \<longrightarrow> Schedule_init now m y = Inl (KeyError (YStr ''frequency'')))
   \<and> (y ''time'' = Some (YStr ts) \<and> strptime_HM ts = Some tm
        \<and> y ''day'' = Some (YStr ds)
        \<and> y ''irc'' = Some ch
        \<and> y ''frequency'' = Some fq \<and> fq \<noteq> YStr ''weekly'' \<and> fq \<noteq> YStr ''biweekly''
       \<longrightarrow> Schedule_init now m y = Inl (KeyError fq))
   \<and> (y ''time'' = Some (YStr ts) \<and> strptime_HM ts = Some tm
        \<and> y ''day'' = Some (YStr ds)
        \<and> y ''irc'' = Some ch
        \<and> y ''frequency'' = Some fq \<and> (fq = YStr ''weekly'' \<or> fq = YStr ''biweekly'')
        \<and> y ''start_date'' = Some v \<and> \<not> str_limit_ok v
       \<longrightarrow> Schedule_init now m y = Inl (DigitLimitError))
   \<and> (y ''time'' = Some (YStr ts) \<and> strptime_HM ts = Some tm
        \<and> y ''day'' = Some (YStr ds)
        \<and> y ''irc'' = Some ch
        \<and> y ''frequency'' = Some fq \<and> (fq = YStr ''weekly'' \<or> fq = YStr ''biweekly'')
        \<and> y ''start_date'' = Some v \<and> str_limit_ok v \<and> strptime_Ymd (py_str v) = None
       \<longrightarrow> Schedule_init now m y = Inl (ValueError (''Could not parse '' @ quote @ ''start_date'' @ quote @ '' ('' @ py_str v @ '') in '' @ Meeting.filefrom m)))
   \<and> (y ''time'' = Some (YStr ts) \<and> strptime_HM ts = Some tm
        \<and> y ''day'' = Some (YStr ds)
        \<and> y ''irc'' = Some ch
        \<and> y ''frequency'' = Some fq \<and> (fq = YStr ''weekly'' \<or> fq = YStr ''biweekly'')
        \<and> (y ''start_date'' = None \<and> sd = now
            \<or> (\<exists>v. y ''start_date'' = Some v \<and> str_limit_ok v \<and> strptime_Ymd (py_str v) = Some sd))
        \<and> y ''duration'' = Some v \<and> py_int v = None
       \<longrightarrow> Schedule_init now m y = Inl (ValueError (''Could not parse '' @ quote @ ''duration'' @ quote @ '' ('' @ py_str v @ '') in '' @ Meeting.filefrom m)))
   \<and> (y ''time'' = Some (YStr ts) \<and> strptime_HM ts = Some tm
        \<and> y ''day'' = Some (YStr ds)
        \<and> y ''irc'' = Some ch
        \<and> y ''frequency'' = Some fq \<and> (fq = YStr ''weekly'' \<or> fq = YStr ''biweekly'')
        \<and> (y ''start_date'' = None \<and> sd = now
            \<or> (\<exists>v. y ''start_date'' = Some v \<and> str_limit_ok v \<and> strptime_Ymd (py_str v) = Some sd))
        \<and> (y ''duration'' = None \<and> dur = 60
            \<or> (\<exists>v. y ''duration'' = Some v \<and> py_int v = Some dur))
        \<and> DATES (capitalize (lower ds)) = None
       \<longrightarrow> Schedule_init now m y = Inl (ValueError (quote @ ''%s'' @ quote @ '' is not a valid day of the week'')))
   \<and> (y ''time'' = Some (YStr ts) \<and> strptime_HM ts = Some tm
        \<and> y ''day'' = Some (YStr ds)
        \<and> y ''irc'' = Some ch
        \<and> y ''frequency'' = Some fq \<and> (fq = YStr ''weekly'' \<or> fq = YStr ''biweekly'')
        \<and> (y ''start_date'' = None \<and> sd = now
            \<or> (\<exists>v. y ''start_date'' = Some v \<and> str_limit_ok v \<and> strptime_Ymd (py_str v) = Some sd))
        \<and> (y ''duration'' = None \<and> dur = 60
            \<or> (\<exists>v. y ''duration'' = Some v \<and> py_int v = Some dur))
        \<and> DATES (capitalize (lower ds)) = Some date
        \<and> (\<not> dt_valid (combine date (dt_time tm) + dur * usec_per_minute)
            \<or> capitalize (lower ds) = ''Sunday'' \<and> weekday (combine date (dt_time tm) + dur * usec_per_minute) = 0
              \<and> \<not> dt_valid (combine date (dt_time tm) + dur * usec_per_minute - ONE_WEEK))
       \<longrightarrow> Schedule_init now m y = Inl (OverflowError))"
  apply (intro conjI impI)
  subgoal by (rule Schedule_init_Inr_iff)
  subgoal
    apply (elim conjE)
    apply (frule (2) week_interval_value [where tm = tm and dur = dur])
    apply (drule start_date_stage [where ff = "Meeting.filefrom m"])
    apply (drule duration_stage [where ff = "Meeting.filefrom m"])
    apply (auto simp: Schedule_init_def getitem_def lookup_frequency_def supported_frequencies_def check_day_def Schedule.defs)
    done
  subgoal by (auto simp: Schedule_init_def getitem_def)
  subgoal by (auto simp: Schedule_init_def getitem_def)
  subgoal by (auto simp: Schedule_init_def getitem_def)
  subgoal by (auto simp: Schedule_init_def getitem_def)
  subgoal by (auto simp: Schedule_init_def getitem_def)
  subgoal by (auto simp: Schedule_init_def getitem_def)
  subgoal by (auto simp: Schedule_init_def getitem_def)
  subgoal by (auto simp: Schedule_init_def getitem_def lookup_frequency_def supported_frequencies_def)
  subgoal by (auto simp: Schedule_init_def getitem_def lookup_frequency_def supported_frequencies_def parse_start_date_def)
  subgoal by (auto simp: Schedule_init_def getitem_def lookup_frequency_def supported_frequencies_def parse_start_date_def)
  subgoal
    apply (elim conjE)
    apply (drule start_date_stage [where ff = "Meeting.filefrom m"])
    apply (auto simp: Schedule_init_def getitem_def lookup_frequency_def supported_frequencies_def parse_duration_def)
    done
  subgoal
    apply (elim conjE)
    apply (drule start_date_stage [where ff = "Meeting.filefrom m"])
    apply (drule duration_stage [where ff = "Meeting.filefrom m"])
    apply (auto simp: Schedule_init_def getitem_def lookup_frequency_def supported_frequencies_def check_day_def)
    done
  subgoal
    apply (elim conjE)
    apply (frule (1) week_interval_overflow [where tm = tm and dur = dur])
    apply (drule start_date_stage [where ff = "Meeting.filefrom m"])
    apply (drule duration_stage [where ff = "Meeting.filefrom m"])
    apply (auto simp: Schedule_init_def getitem_def lookup_frequency_def supported_frequencies_def check_day_def)
    done
  done

theorem Schedule_init_succeeds_iff_witness:
  "Schedule_init 0 example_meeting yaml_sunday = Inr sched_sunday
   \<and> Schedule_init 0 example_meeting (yaml_sunday(''irc'' := None)) = Inl (KeyError (YStr ''irc''))
   \<and> Schedule_init 0 example_meeting (yaml_sunday(''day'' := None)) = Inl (KeyError (YStr ''day''))
   \<and> Schedule_init 0 example_meeting (yaml_sunday(''frequency'' \<mapsto> YStr ''monthly''))
        = Inl (KeyError (YStr ''monthly''))
   \<and> Schedule_init 0 example_meeting (yaml_sunday(''day'' \<mapsto> YStr ''Someday''))
        = Inl (ValueError (quote @ ''%s'' @ quote @ '' is not a valid day of the week''))"
proof -
  have tm: "strptime_HM ''2330'' = Some 59926779000000000" by (rule parse_time_2330)
  have c1: "capitalize (lower ''Sunday'') = ''Sunday''" by code_simp
  have c2: "weekday (combine 693602 (dt_time 59926779000000000) + 60 * usec_per_minute) = 0"
    by code_simp
  have c3: "combine 693602 (dt_time 59926779000000000) - ONE_WEEK = 59926692600000000"
    by code_simp
  have c4: "combine 693602 (dt_time 59926779000000000) + 60 * usec_per_minute - ONE_WEEK
            = 59926696200000000"
    by code_simp
  have c5: "dt_valid (combine 693602 (dt_time 59926779000000000) + 60 * usec_per_minute)"
    by code_simp
  have c6: "dt_valid (combine 693602 (dt_time 59926779000000000) + 60 * usec_per_minute - ONE_WEEK)"
    by code_simp
  have c7: "DATES ''Sunday'' = Some 693602" by code_simp
  have sd: "str_limit_ok (YInt 20150801)
            \<and> strptime_Ymd (py_str (YInt 20150801)) = Some 63574070400000000"
    by code_simp
  have s: "yaml_sunday ''start_date'' = None \<and> 63574070400000000 = (0::int)
           \<or> (\<exists>v. yaml_sunday ''start_date'' = Some v \<and> str_limit_ok v
                  \<and> strptime_Ymd (py_str v) = Some 63574070400000000)"
    using sd by (intro disjI2 exI [of _ "YInt 20150801"]) (simp add: yaml_sunday_def)
  have u: "yaml_sunday ''duration'' = None \<and> (60::int) = 60
           \<or> (\<exists>v. yaml_sunday ''duration'' = Some v \<and> py_int v = Some 60)"
    by (intro disjI2 exI [of _ "YInt 60"]) (simp add: yaml_sunday_def)
  have h: "yaml_sunday ''time'' = Some (YStr ''2330'')
        \<and> strptime_HM ''2330'' = Some 59926779000000000
        \<and> yaml_sunday ''day'' = Some (YStr ''Sunday'')
        \<and> DATES (capitalize (lower ''Sunday'')) = Some 693602
        \<and> yaml_sunday ''irc'' = Some (YStr ''proj'')
        \<and> yaml_sunday ''frequency'' = Some (YStr ''weekly'')
        \<and> (YStr ''weekly'' = YStr ''weekly'' \<or> YStr ''weekly'' = YStr ''biweekly'')
        \<and> (yaml_sunday ''start_date'' = None \<and> 63574070400000000 = (0::int)
           \<or> (\<exists>v. yaml_sunday ''start_date'' = Some v \<and> str_limit_ok v
                  \<and> strptime_Ymd (py_str v) = Some 63574070400000000))
        \<and> (yaml_sunday ''duration'' = None \<and> (60::int) = 60
           \<or> (\<exists>v. yaml_sunday ''duration'' = Some v \<and> py_int v = Some 60))
        \<and> dt_valid (combine 693602 (dt_time 59926779000000000) + 60 * usec_per_minute)
        \<and> \<not> (capitalize (lower ''Sunday'') = ''Sunday''
              \<and> weekday (combine 693602 (dt_time 59926779000000000) + 60 * usec_per_minute) = 0
              \<and> \<not> dt_valid (combine 693602 (dt_time 59926779000000000) + 60 * usec_per_minute
                              - ONE_WEEK))"
    using tm c1 c5 c6 c7 s u by (simp add: yaml_sunday_def)
  from Schedule_init_succeeds_iff [where now = 0 and m = example_meeting and y = yaml_sunday
      and ts = "''2330''" and tm = 59926779000000000 and ds = "''Sunday''" and date = 693602
      and ch = "YStr ''proj''" and fq = "YStr ''weekly''" and sd = 63574070400000000
      and dur = 60, THEN conjunct2, THEN conjunct1] h
  have r: "Schedule_init 0 example_meeting yaml_sunday = Inr
            \<lparr> Schedule.project = Meeting.project example_meeting,
              filefrom = Meeting.filefrom example_meeting,
              utc = YStr ''2330'', time = 59926779000000000, day = capitalize (lower ''Sunday''),
              irc = YStr ''proj'', freq = YStr ''weekly'',
              freq_interval = (if YStr ''weekly'' = YStr ''weekly'' then 1 else 2),
              start_date = 63574070400000000, duration = 60,
              meeting_start =
                (if capitalize (lower ''Sunday'') = ''Sunday''
                    \<and> weekday (combine 693602 (dt_time 59926779000000000) + 60 * usec_per_minute) = 0
                 then combine 693602 (dt_time 59926779000000000) - ONE_WEEK
                 else combine 693602 (dt_time 59926779000000000)),
              meeting_end =
                (if capitalize (lower ''Sunday'') = ''Sunday''
                    \<and> weekday (combine 693602 (dt_time 59926779000000000) + 60 * usec_per_minute) = 0
                 then combine 693602 (dt_time 59926779000000000) + 60 * usec_per_minute - ONE_WEEK
                 else combine 693602 (dt_time 59926779000000000) + 60 * usec_per_minute) \<rparr>"
    by (rule mp)
  from r have a: "Schedule_init 0 example_meeting yaml_sunday = Inr sched_sunday"
    by (simp add: c1 c2 c3 c4 sched_sunday_def example_meeting_def)
  have hi: "(yaml_sunday(''irc'' := None)) ''time'' = Some (YStr ''2330'')
        \<and> strptime_HM ''2330'' = Some 59926779000000000
        \<and> (yaml_sunday(''irc'' := None)) ''day'' = Some (YStr ''Sunday'')
        \<and> (yaml_sunday(''irc'' := None)) ''irc'' = None"
    using tm by (simp add: yaml_sunday_def)
  from Schedule_init_succeeds_iff [where now = 0 and m = example_meeting and y = "yaml_sunday(''irc'' := None)"
      and ts = "''2330''" and tm = 59926779000000000 and ds = "''Sunday''", THEN conjunct2, THEN conjunct2, THEN conjunct2, THEN conjunct2, THEN conjunct2, THEN conjunct2, THEN conjunct2, THEN conjunct1] hi
  have b: "Schedule_init 0 example_meeting (yaml_sunday(''irc'' := None))
           = Inl (KeyError (YStr ''irc''))"
    by (rule mp)
  have hd: "(yaml_sunday(''day'' := None)) ''time'' = Some (YStr ''2330'')
        \<and> strptime_HM ''2330'' = Some 59926779000000000
        \<and> (yaml_sunday(''day'' := None)) ''day'' = None"
    using tm by (simp add: yaml_sunday_def)
  from Schedule_init_succeeds_iff [where now = 0 and m = example_meeting and y = "yaml_sunday(''day'' := None)"
      and ts = "''2330''" and tm = 59926779000000000, THEN conjunct2, THEN conjunct2, THEN conjunct2, THEN conjunct2, THEN conjunct2, THEN conjunct1] hd
  have c: "Schedule_init 0 example_meeting (yaml_sunday(''day'' := None))
           = Inl (KeyError (YStr ''day''))"
    by (rule mp)
  have hf: "(yaml_sunday(''frequency'' \<mapsto> YStr ''monthly'')) ''time'' = Some (YStr ''2330'')
        \<and> strptime_HM ''2330'' = Some 59926779000000000
        \<and> (yaml_sunday(''frequency'' \<mapsto> YStr ''monthly'')) ''day'' = Some (YStr ''Sunday'')
        \<and> (yaml_sunday(''frequency'' \<mapsto> YStr ''monthly'')) ''irc'' = Some (YStr ''proj'')
        \<and> (yaml_sunday(''frequency'' \<mapsto> YStr ''monthly'')) ''frequency'' = Some (YStr ''monthly'')
        \<and> YStr ''monthly'' \<noteq> YStr ''weekly'' \<and> YStr ''monthly'' \<noteq> YStr ''biweekly''"
    using tm by (simp add: yaml_sunday_def)
  from Schedule_init_succeeds_iff [where now = 0 and m = example_meeting
      and y = "yaml_sunday(''frequency'' \<mapsto> YStr ''monthly'')"
      and ts = "''2330''" and tm = 59926779000000000 and ds = "''Sunday''"
      and ch = "YStr ''proj''" and fq = "YStr ''monthly''", THEN conjunct2, THEN conjunct2, THEN conjunct2, THEN conjunct2, THEN conjunct2, THEN conjunct2, THEN conjunct2, THEN conjunct2, THEN conjunct2, THEN conjunct1] hf
  have d: "Schedule_init 0 example_meeting (yaml_sunday(''frequency'' \<mapsto> YStr ''monthly''))
           = Inl (KeyError (YStr ''monthly''))"
    by (rule mp)
  have c8: "DATES (capitalize (lower ''Someday'')) = None" by code_simp
  have hn: "(yaml_sunday(''day'' \<mapsto> YStr ''Someday'')) ''time'' = Some (YStr ''2330'')
        \<and> strptime_HM ''2330'' = Some 59926779000000000
        \<and> (yaml_sunday(''day'' \<mapsto> YStr ''Someday'')) ''day'' = Some (YStr ''Someday'')
        \<and> (yaml_sunday(''day'' \<mapsto> YStr ''Someday'')) ''irc'' = Some (YStr ''proj'')
        \<and> (yaml_sunday(''day'' \<mapsto> YStr ''Someday'')) ''frequency'' = Some (YStr ''weekly'')
        \<and> (YStr ''weekly'' = YStr ''weekly'' \<or> YStr ''weekly'' = YStr ''biweekly'')
        \<and> ((yaml_sunday(''day'' \<mapsto> YStr ''Someday'')) ''start_date'' = None
              \<and> 63574070400000000 = (0::int)
           \<or> (\<exists>v. (yaml_sunday(''day'' \<mapsto> YStr ''Someday'')) ''start_date'' = Some v
                  \<and> str_limit_ok v \<and> strptime_Ymd (py_str v) = Some 63574070400000000))
        \<and> ((yaml_sunday(''day'' \<mapsto> YStr ''Someday'')) ''duration'' = None \<and> (60::int) = 60
           \<or> (\<exists>v. (yaml_sunday(''day'' \<mapsto> YStr ''Someday'')) ''duration'' = Some v
                  \<and> py_int v = Some 60))
        \<and> DATES (capitalize (lower ''Someday'')) = None"
    using tm c8 s u by (simp add: yaml_sunday_def)
  from Schedule_init_succeeds_iff [where now = 0 and m = example_meeting
      and y = "yaml_sunday(''day'' \<mapsto> YStr ''Someday'')"
      and ts = "''2330''" and tm = 59926779000000000 and ds = "''Someday''"
      and ch = "YStr ''proj''" and fq = "YStr ''weekly''" and sd = 63574070400000000
      and dur = 60, THEN conjunct2, THEN conjunct2, THEN conjunct2, THEN conjunct2, THEN conjunct2, THEN conjunct2, THEN conjunct2, THEN conjunct2, THEN conjunct2, THEN conjunct2, THEN conjunct2, THEN conjunct2, THEN conjunct2, THEN conjunct1] hn
  have e: "Schedule_init 0 example_meeting (yaml_sunday(''day'' \<mapsto> YStr ''Someday''))
           = Inl (ValueError (quote @ ''%s'' @ quote @ '' is not a valid day of the week''))"
    by (rule mp)
  from a b c d e show ?thesis by (intro conjI)
qed

text \<open>
  C5 as stated fails: the durations -30 and 0 are not positive integers and are
  accepted; a \<open>time\<close> that is present and does not parse (\<open>2500\<close>) makes construction
  fail, as does a duration of 10000000000 minutes, and neither case is in the list of the
  claim.
\<close>

theorem nonpositive_duration_accepted:
  "Schedule_init 63574297200000000 example_meeting (yaml_default(''duration'' \<mapsto> YInt (- 30)))
     = Inr (sched_default\<lparr>duration := - 30, meeting_end := 59926728600000000\<rparr>)
   \<and> Schedule_init 63574297200000000 example_meeting (yaml_default(''duration'' \<mapsto> YInt 0))
     = Inr (sched_default\<lparr>duration := 0, meeting_end := 59926730400000000\<rparr>)
   \<and> Schedule_init 63574297200000000 example_meeting (yaml_default(''time'' \<mapsto> YStr ''2500''))
     = Inl StrptimeError
   \<and> Schedule_init 63574297200000000 example_meeting
        (yaml_default(''duration'' \<mapsto> YInt 10000000000)) = Inl OverflowError"
proof (intro conjI)
  show "Schedule_init 63574297200000000 example_meeting (yaml_default(''duration'' \<mapsto> YInt (- 30)))
     = Inr (sched_default\<lparr>duration := - 30, meeting_end := 59926728600000000\<rparr>)"
    by code_simp
  show "Schedule_init 63574297200000000 example_meeting (yaml_default(''duration'' \<mapsto> YInt 0))
     = Inr (sched_default\<lparr>duration := 0, meeting_end := 59926730400000000\<rparr>)"
    by code_simp
  show "Schedule_init 63574297200000000 example_meeting (yaml_default(''time'' \<mapsto> YStr ''2500''))
     = Inl StrptimeError"
    by code_simp
  show "Schedule_init 63574297200000000 example_meeting
        (yaml_default(''duration'' \<mapsto> YInt 10000000000)) = Inl OverflowError"
    by code_simp
qed

section \<open>Expansion of a schedule over a window\<close>

text \<open>
  C6 (amended). For a schedule with a positive interval (every constructed schedule has
  interval 1 or 2), the expansion over the window from \<open>ws\<close> to \<open>we\<close> yields
  exactly the instants \<open>next_occurrence() + k * (7 * freq_interval)\<close> days, \<open>k = 0, 1, ...\<close>,
  that lie in the window, both bounds inclusive, in increasing order. For a biweekly
  schedule and a window of \<open>N\<close> weeks the number of occurrences is at most
  \<open>N div 2 + 1\<close>, at least \<open>N div 2\<close> when the first occurrence is not after the window
  start, and less than \<open>N\<close> when \<open>N\<close> is at least 3.
\<close>

theorem occurrences_expansion:
  assumes occ: "occurrences ws we s = Inr occ" and iv: "0 < freq_interval s"
  shows "\<exists>t0. next_occurrence s = Inr t0
     \<and> (\<forall>x. x \<in> set occ \<longleftrightarrow>
              (\<exists>k::nat. x = t0 + int k * timedelta_days (7 * freq_interval s))
              \<and> ws \<le> x \<and> x \<le> we)
     \<and> sorted_wrt (<) occ
     \<and> (freq_interval s = 2 \<and> 0 \<le> N \<and> we = ws + timedelta_days (7 * N) \<longrightarrow>
           int (length occ) \<le> N div 2 + 1
           \<and> (t0 \<le> ws \<longrightarrow> N div 2 \<le> int (length occ))
           \<and> (3 \<le> N \<longrightarrow> int (length occ) < N))"
proof -
  from occ obtain t0 where t0: "next_occurrence s = Inr t0"
    and o: "occ = between_from (timedelta_days (7 * freq_interval s)) t0 ws we"
    by (auto simp: occurrences_def bind_Inr_iff rrule_between_def)
  have st: "0 < timedelta_days (7 * freq_interval s)"
    using iv usec_pos(1) by (simp add: timedelta_days_def)
  have mem: "\<forall>x. x \<in> set occ \<longleftrightarrow>
              (\<exists>k::nat. x = t0 + int k * timedelta_days (7 * freq_interval s))
              \<and> ws \<le> x \<and> x \<le> we"
    unfolding o using between_from_mem [OF st] by blast
  have srt: "sorted_wrt (<) occ" unfolding o by (rule between_from_sorted [OF st])
  have cnt: "int (length occ) \<le> N div 2 + 1
           \<and> (t0 \<le> ws \<longrightarrow> N div 2 \<le> int (length occ))
           \<and> (3 \<le> N \<longrightarrow> int (length occ) < N)"
    if h: "freq_interval s = 2 \<and> 0 \<le> N \<and> we = ws + timedelta_days (7 * N)"
  proof -
    from h have N: "0 \<le> N" by simp
    from h o have o': "occ = between_from (timedelta_days 14) t0 ws (ws + timedelta_days (7 * N))"
      by simp
    note c = biweekly_count [OF N, of t0 ws, folded o']
    from c(1) have "3 \<le> N \<longrightarrow> int (length occ) < N" by linarith
    with c show ?thesis by blast
  qed
  from t0 mem srt cnt show ?thesis by blast
qed

theorem occurrences_expansion_witness:
  "occurrences 63574241400000000 (63574241400000000 + timedelta_days (7 * 4)) sched_biweekly
     = Inr [63574241400000000, 63575451000000000, 63576660600000000]
   \<and> 0 < freq_interval sched_biweekly
   \<and> freq_interval sched_biweekly = 2
   \<and> next_occurrence sched_biweekly = Inr 63574241400000000
   \<and> sorted_wrt (<) [63574241400000000, 63575451000000000, 63576660600000000 :: int]
   \<and> int (length [63574241400000000, 63575451000000000, 63576660600000000 :: int]) \<le> 4 div 2 + 1
   \<and> 4 div 2 \<le> int (length [63574241400000000, 63575451000000000, 63576660600000000 :: int])
   \<and> int (length [63574241400000000, 63575451000000000, 63576660600000000 :: int]) < 4"
proof -
  have a: "occurrences 63574241400000000 (63574241400000000 + timedelta_days (7 * 4)) sched_biweekly
     = Inr [63574241400000000, 63575451000000000, 63576660600000000]" by code_simp
  have b: "0 < freq_interval sched_biweekly" by (simp add: sched_biweekly_def)
  have c: "freq_interval sched_biweekly = 2" by (simp add: sched_biweekly_def)
  have d: "next_occurrence sched_biweekly = Inr 63574241400000000" by code_simp
  from occurrences_expansion [OF a b, of 4] d c
  have "sorted_wrt (<) [63574241400000000, 63575451000000000, 63576660600000000 :: int]
     \<and> int (length [63574241400000000, 63575451000000000, 63576660600000000 :: int]) \<le> 4 div 2 + 1
     \<and> 4 div 2 \<le> int (length [63574241400000000, 63575451000000000, 63576660600000000 :: int])
     \<and> int (length [63574241400000000, 63575451000000000, 63576660600000000 :: int]) < 4"
    by auto
  with a b c d show ?thesis by blast
qed

text \<open>
  C6 as stated fails: a biweekly schedule expanded over a window of one week that holds
  its first occurrence yields one occurrence, which is \<open>N\<close>; and over a window of 52
  weeks that ends before its first occurrence it yields none.
\<close>

theorem biweekly_count_equals_weeks:
  "Schedule_init 0 example_meeting yaml_biweekly = Inr sched_biweekly
   \<and> freq_interval sched_biweekly = 2
   \<and> occurrences 63574156800000000 (63574156800000000 + timedelta_days (7 * 1)) sched_biweekly
       = Inr [63574241400000000]
   \<and> int (length [63574241400000000 :: int]) = 1
   \<and> occurrences 63504000000000000 (63504000000000000 + timedelta_days (7 * 52)) sched_biweekly
       = Inr []"
proof (intro conjI)
  show "Schedule_init 0 example_meeting yaml_biweekly = Inr sched_biweekly" by code_simp
  show "freq_interval sched_biweekly = 2" by (simp add: sched_biweekly_def)
  show "occurrences 63574156800000000 (63574156800000000 + timedelta_days (7 * 1)) sched_biweekly
       = Inr [63574241400000000]" by code_simp
  show "int (length [63574241400000000 :: int]) = 1" by simp
  show "occurrences 63504000000000000 (63504000000000000 + timedelta_days (7 * 52)) sched_biweekly
       = Inr []" by code_simp
qed

section \<open>The instances of the expansion\<close>

text \<open>
  C10. Every meeting instance that the expansion puts on a channel comes from a schedule
  of that channel, of one of the meetings: it carries the project name of that meeting,
  its start is an occurrence of the schedule in the window, and its end is its start
  plus the schedule's duration in minutes. Hence all instances of one schedule have
  intervals of the same length.
\<close>

theorem instance_invariant:
  assumes ex: "expand_meetings ws we meetings [] = Inr allinst"
    and c: "(c, xs) \<in> set allinst" and x: "x \<in> set xs"
  shows "\<exists>m \<in> set meetings. \<exists>s \<in> set (schedules m).
           irc s = c
         \<and> MeetingInstance.project x = Meeting.project m
         \<and> instance_end x = start x + duration s * usec_per_minute
         \<and> (\<exists>occ. occurrences ws we s = Inr occ \<and> start x \<in> set occ)"
proof -
  let ?P = "\<lambda>c x. \<exists>m \<in> set meetings. \<exists>s \<in> set (schedules m).
           irc s = c
         \<and> MeetingInstance.project x = Meeting.project m
         \<and> instance_end x = start x + duration s * usec_per_minute
         \<and> (\<exists>occ. occurrences ws we s = Inr occ \<and> start x \<in> set occ)"
  have a: "\<forall>c xs x. (c, xs) \<in> set [] \<longrightarrow> x \<in> set xs \<longrightarrow> ?P c x" by simp
  have b: "\<forall>m s occ t mi. m \<in> set meetings \<longrightarrow> s \<in> set (schedules m) \<longrightarrow>
           occurrences ws we s = Inr occ \<longrightarrow> t \<in> set occ \<longrightarrow>
           MeetingInstance_init (Meeting.project m) t (duration s) = Inr mi \<longrightarrow> ?P (irc s) mi"
  proof (intro allI impI)
    fix m s occ t mi
    assume h: "m \<in> set meetings" "s \<in> set (schedules m)" "occurrences ws we s = Inr occ"
      "t \<in> set occ" "MeetingInstance_init (Meeting.project m) t (duration s) = Inr mi"
    from MeetingInstance_init_Inr [OF h(5)] h(1-4) show "?P (irc s) mi" by auto
  qed
  from expand_meetings_all [where P = ?P, OF ex a b] c x show ?thesis by blast
qed


theorem instance_invariant_witness:
  "expand_meetings 63543225600000000 63574761600000000 example_meetings [] = Inr example_instances
   \<and> (YStr ''proj'', [inst_sunday, inst_monday]) \<in> set example_instances
   \<and> inst_monday \<in> set [inst_sunday, inst_monday]
   \<and> MeetingInstance.project inst_monday = ''Nova''
   \<and> instance_end inst_monday = start inst_monday + 60 * usec_per_minute"
proof -
  have a: "expand_meetings 63543225600000000 63574761600000000 example_meetings []
           = Inr example_instances" by code_simp
  have b: "(YStr ''proj'', [inst_sunday, inst_monday]) \<in> set example_instances"
    by (simp add: example_instances_def)
  have c: "inst_monday \<in> set [inst_sunday, inst_monday]" by simp
  have d: "duration sched_sunday = 60" "duration sched_monday = 60"
    "Meeting.project example_meeting = ''Nova''"
    by (simp_all add: sched_sunday_def sched_monday_def example_meeting_def)
  from instance_invariant [OF a b c] d
  have "MeetingInstance.project inst_monday = ''Nova''
        \<and> instance_end inst_monday = start inst_monday + 60 * usec_per_minute"
    by (auto simp: example_meetings_def)
  with a b c show ?thesis by blast
qed

section \<open>Conflict detection\<close>



end
